theory Spec2Isabelle
  imports Main "HOL-Library.Word"
begin

section \<open>Basic types of the account state store\<close>

text \<open>
  The Go types \<open>common.Address\<close> (\<open>[20]byte\<close>) and \<open>common.Hash\<close> (\<open>[32]byte\<close>)
  are fixed-width byte arrays; they are modelled as words of 160 and 256 bits, read
  big-endian. A byte slice \<open>[]byte\<close> is a list of bytes; the nil slice and the empty
  slice are both \<open>[]\<close> (the code only ever takes \<open>len\<close> of such slices), while a
  database read that yields nil is \<open>None\<close>.
\<close>

type_synonym byte = "8 word"
type_synonym bytes = "byte list"
type_synonym address = "160 word"
type_synonym hash = "256 word"

text \<open>\<open>w[:]\<close> for a fixed-width array of \<open>n\<close> bytes, most significant byte first.\<close>

definition be_bytes :: "nat \<Rightarrow> 'a::len word \<Rightarrow> bytes" where
  "be_bytes n w = map (\<lambda>i. ucast (drop_bit (8 * i) w)) (rev [0..<n])"

definition addr_bytes :: "address \<Rightarrow> bytes" where
  "addr_bytes a = be_bytes 20 a"

definition hash_bytes :: "hash \<Rightarrow> bytes" where
  "hash_bytes h = be_bytes 32 h"

text \<open>
  \<open>common.BytesToHash\<close>: a slice longer than 32 bytes is cropped from the left, a
  shorter one is left-padded with zeros; as a big-endian number this is the value of
  the slice modulo \<open>2 ^ 256\<close>.
\<close>

definition BytesToHash :: "bytes \<Rightarrow> hash" where
  "BytesToHash b = word_of_nat (foldl (\<lambda>acc x. acc * 256 + unat x) 0 b)"

record Account =
  Nonce :: "64 word"
  Balance :: int
  Root :: hash
  CodeHash :: bytes

text \<open>
  Functions of the libraries the package imports (go-ethereum's \<open>crypto\<close> and
  \<open>rlp\<close>) are parameters of the model: \<open>crypto.Keccak256Hash\<close>, and the RLP encoding
  and decoding of an \<open>Account\<close>, each of which can fail (\<open>None\<close> is the error return;
  \<open>rlp.EncodeToBytes\<close> then returns a nil slice).
\<close>

record externals =
  Keccak256Hash :: "bytes \<Rightarrow> hash"
  EncodeToBytes :: "Account \<Rightarrow> bytes option"
  DecodeBytes :: "bytes \<Rightarrow> Account option"

text \<open>\<open>crypto.Keccak256\<close> returns the 32 bytes of the digest.\<close>

definition Keccak256 :: "externals \<Rightarrow> bytes \<Rightarrow> bytes" where
  "Keccak256 X b = hash_bytes (Keccak256Hash X b)"

definition emptyCodeHash :: "externals \<Rightarrow> hash" where
  "emptyCodeHash X = Keccak256Hash X []"

definition emptyRoot :: hash where
  "emptyRoot = 0x56e81f171bcc55a6ff8345e692c0f86e5b48e01b996cadc001622fb5e363b421"

record stateObject =
  address :: address
  addrHash :: hash
  data :: Account
  code :: bytes
  codeHash :: bytes
  dirty :: bool
  suicided :: bool
  deleted :: bool
  originStorage :: "hash \<rightharpoonup> hash"
  pendingStorage :: "hash \<rightharpoonup> hash"
  dirtyStorage :: "hash \<rightharpoonup> hash"

record revision =
  id_revision :: int
  journalIndex :: int

record Log =
  Address :: address
  Topics :: "hash list"
  Data :: bytes
  BlockNumber :: "64 word"
  TxHash :: hash
  TxIndex :: nat
  BlockHash :: hash
  Index :: nat
  Removed :: bool

subsection \<open>The persistent key/value layer\<close>

text \<open>
  Modelled from the spec: package \<open>core/rawdb\<close> (the type \<open>rawdb.Database\<close>, its
  batch, and the helpers \<open>ReadAccountData\<close>, \<open>DeleteAccountData\<close>, \<open>ReadCode\<close>,
  \<open>WriteCode\<close>, \<open>ReadStorageData\<close>, \<open>WriteStorageData\<close>, \<open>DeleteStorageData\<close>) is
  not among the sources. The spec describes a byte-string keyed get/put/delete/batch-write
  store whose keys are partitioned by a fixed prefix per data category (account record,
  code, storage slot). The account prefix \<open>"a"\<close> is the one \<open>CommitToDB\<close> itself
  writes under; the code and storage prefixes are taken to be \<open>"c"\<close> and \<open>"s"\<close>. A
  helper that is handed the database writes to the database at once; only a
  \<open>Put\<close> on a batch is deferred until the batch's \<open>Write\<close>.
\<close>

type_synonym Database = "bytes \<rightharpoonup> bytes"

type_synonym Batch = "(bytes \<times> bytes) list"

definition accountDataKey :: "hash \<Rightarrow> bytes" where
  "accountDataKey h = 0x61 # hash_bytes h"

definition codeKey :: "hash \<Rightarrow> bytes" where
  "codeKey h = 0x63 # hash_bytes h"

definition storageKey :: "hash \<Rightarrow> hash \<Rightarrow> bytes" where
  "storageKey ah kh = 0x73 # hash_bytes ah @ hash_bytes kh"

definition ReadAccountData :: "Database \<Rightarrow> hash \<Rightarrow> bytes option" where
  "ReadAccountData d h = d (accountDataKey h)"

definition DeleteAccountData :: "Database \<Rightarrow> hash \<Rightarrow> Database" where
  "DeleteAccountData d h = d(accountDataKey h := None)"

definition ReadCode :: "Database \<Rightarrow> hash \<Rightarrow> bytes" where
  "ReadCode d h = (case d (codeKey h) of None \<Rightarrow> [] | Some c \<Rightarrow> c)"

definition WriteCode :: "Database \<Rightarrow> hash \<Rightarrow> bytes \<Rightarrow> Database" where
  "WriteCode d h c = d(codeKey h \<mapsto> c)"

definition ReadStorageData :: "Database \<Rightarrow> hash \<Rightarrow> hash \<Rightarrow> bytes option" where
  "ReadStorageData d ah kh = d (storageKey ah kh)"

definition WriteStorageData :: "Database \<Rightarrow> hash \<Rightarrow> hash \<Rightarrow> bytes \<Rightarrow> Database" where
  "WriteStorageData d ah kh v = d(storageKey ah kh \<mapsto> v)"

definition DeleteStorageData :: "Database \<Rightarrow> hash \<Rightarrow> hash \<Rightarrow> Database" where
  "DeleteStorageData d ah kh = d(storageKey ah kh := None)"

text \<open>\<open>batch.Put\<close> appends to the batch; the database is untouched.\<close>

definition batch_Put :: "Batch \<Rightarrow> bytes \<Rightarrow> bytes \<Rightarrow> Batch" where
  "batch_Put b k v = b @ [(k, v)]"

fun applyBatch :: "Batch \<Rightarrow> Database \<Rightarrow> Database" where
  "applyBatch [] d = d"
| "applyBatch ((k, v) # rest) d = applyBatch rest (d(k \<mapsto> v))"

datatype commit_error = ErrEncode | ErrBatchWrite

text \<open>
  \<open>batch.Write\<close> either applies every \<open>Put\<close> of the batch or fails and applies none;
  whether the underlying write succeeds is an input.
\<close>

definition batch_Write :: "bool \<Rightarrow> Batch \<Rightarrow> Database \<Rightarrow> commit_error option \<times> Database" where
  "batch_Write ok b d = (if ok then (None, applyBatch b d) else (Some ErrBatchWrite, d))"

section \<open>The store\<close>

text \<open>
  \<open>StateDB\<close>. The objects of the store are reached through pointers held in the map
  \<open>objects\<close> only, one per address, so the map holds the objects by value and a
  mutation through the pointer is an update of the map at the object's address. The
  sets \<open>dirty\<close> and \<open>deleted\<close> of the struct are \<open>dirtyAddrs\<close> and \<open>deletedAddrs\<close> here
  (the object's flags keep the names). The interface \<open>journalEntry\<close> has no
  implementation in the package; the type of entries is the parameter \<open>'j\<close> and the
  method \<open>revert\<close> a parameter of \<open>RevertToSnapshot\<close>.
\<close>

record 'j StateDB =
  db :: "Database option"
  root :: hash
  objects :: "address \<rightharpoonup> stateObject"
  dirtyAddrs :: "address set"
  deletedAddrs :: "address set"
  journal :: "'j list"
  validRevisions :: "revision list"
  nextRevisionId :: int
  txHash :: hash
  txIndex :: int
  logs :: "hash \<rightharpoonup> Log list"
  logSize :: nat

definition NewMemoryStateDB :: "'j StateDB" where
  "NewMemoryStateDB =
     \<lparr>db = None, root = emptyRoot, objects = Map.empty, dirtyAddrs = {}, deletedAddrs = {},
      journal = [], validRevisions = [], nextRevisionId = 0, txHash = 0, txIndex = 0,
      logs = Map.empty, logSize = 0\<rparr>"

text \<open>\<open>loadFromDB\<close> always returns nil, so \<open>NewWithDB\<close> keeps the root it is given.\<close>

definition NewWithDB :: "hash \<Rightarrow> Database option \<Rightarrow> 'j StateDB" where
  "NewWithDB r d =
     \<lparr>db = d, root = r, objects = Map.empty, dirtyAddrs = {}, deletedAddrs = {},
      journal = [], validRevisions = [], nextRevisionId = 0, txHash = 0, txIndex = 0,
      logs = Map.empty, logSize = 0\<rparr>"

definition createObject :: "externals \<Rightarrow> 'j StateDB \<Rightarrow> address \<Rightarrow> stateObject \<times> 'j StateDB" where
  "createObject X s addr =
     (let obj = \<lparr>address = addr, addrHash = Keccak256Hash X (addr_bytes addr),
                 data = \<lparr>Nonce = 0, Balance = 0, Root = emptyRoot,
                         CodeHash = hash_bytes (emptyCodeHash X)\<rparr>,
                 code = [], codeHash = [], dirty = False, suicided = False, deleted = False,
                 originStorage = Map.empty, pendingStorage = Map.empty,
                 dirtyStorage = Map.empty\<rparr>
      in (obj, s\<lparr>objects := (objects s)(addr \<mapsto> obj)\<rparr>))"

definition GetOrNewStateObject :: "externals \<Rightarrow> 'j StateDB \<Rightarrow> address \<Rightarrow> stateObject \<times> 'j StateDB" where
  "GetOrNewStateObject X s addr =
     (case objects s addr of
        None \<Rightarrow> createObject X s addr
      | Some obj \<Rightarrow> if deleted obj then createObject X s addr else (obj, s))"

definition loadStateObject ::
  "externals \<Rightarrow> 'j StateDB \<Rightarrow> Database \<Rightarrow> address \<Rightarrow> stateObject option \<times> 'j StateDB" where
  "loadStateObject X s d addr =
     (let ah = Keccak256Hash X (addr_bytes addr) in
      case ReadAccountData d ah of
        None \<Rightarrow> (None, s)
      | Some dat \<Rightarrow>
          (case DecodeBytes X dat of
             None \<Rightarrow> (None, s)
           | Some account \<Rightarrow>
               let obj = \<lparr>address = addr, addrHash = ah, data = account,
                           code = [], codeHash = [], dirty = False, suicided = False,
                           deleted = False, originStorage = Map.empty,
                           pendingStorage = Map.empty, dirtyStorage = Map.empty\<rparr>;
                   obj' = (if length (CodeHash account) > 0
                              \<and> CodeHash account \<noteq> hash_bytes (emptyCodeHash X)
                           then obj\<lparr>code := ReadCode d (BytesToHash (CodeHash account)),
                                    codeHash := CodeHash account\<rparr>
                           else obj)
               in (Some obj', s\<lparr>objects := (objects s)(addr \<mapsto> obj')\<rparr>)))"

text \<open>
  \<open>getStateObject\<close>: the live object, or else one loaded from the database (which is
  then cached in \<open>objects\<close>, so the read returns the store as well).
\<close>

definition getStateObject ::
  "externals \<Rightarrow> 'j StateDB \<Rightarrow> address \<Rightarrow> stateObject option \<times> 'j StateDB" where
  "getStateObject X s addr =
     (let fromDB = (case db s of Some d \<Rightarrow> loadStateObject X s d addr | None \<Rightarrow> (None, s)) in
      case objects s addr of
        None \<Rightarrow> fromDB
      | Some obj \<Rightarrow> if \<not> deleted obj then (Some obj, s) else fromDB)"


subsection \<open>Reads and writes\<close>

definition GetBalance :: "externals \<Rightarrow> 'j StateDB \<Rightarrow> address \<Rightarrow> int \<times> 'j StateDB" where
  "GetBalance X s addr =
     (case getStateObject X s addr of
        (Some obj, s1) \<Rightarrow> (Balance (data obj), s1)
      | (None, s1) \<Rightarrow> (0, s1))"

text \<open>
  A write fetches the object with \<open>GetOrNewStateObject\<close>, mutates it, sets its
  \<open>dirty\<close> flag and enters the address in the store's dirty set. No write touches
  the journal.
\<close>

definition SetBalance :: "externals \<Rightarrow> 'j StateDB \<Rightarrow> address \<Rightarrow> int \<Rightarrow> 'j StateDB" where
  "SetBalance X s addr amount =
     (case GetOrNewStateObject X s addr of
        (obj, s1) \<Rightarrow>
          s1\<lparr>objects := (objects s1)(addr \<mapsto> obj\<lparr>data := (data obj)\<lparr>Balance := amount\<rparr>,
                                                     dirty := True\<rparr>),
             dirtyAddrs := insert addr (dirtyAddrs s1)\<rparr>)"

definition AddBalance :: "externals \<Rightarrow> 'j StateDB \<Rightarrow> address \<Rightarrow> int \<Rightarrow> 'j StateDB" where
  "AddBalance X s addr amount =
     (case GetOrNewStateObject X s addr of
        (obj, s1) \<Rightarrow>
          s1\<lparr>objects := (objects s1)(addr \<mapsto>
                 obj\<lparr>data := (data obj)\<lparr>Balance := Balance (data obj) + amount\<rparr>,
                     dirty := True\<rparr>),
             dirtyAddrs := insert addr (dirtyAddrs s1)\<rparr>)"

definition SubBalance :: "externals \<Rightarrow> 'j StateDB \<Rightarrow> address \<Rightarrow> int \<Rightarrow> 'j StateDB" where
  "SubBalance X s addr amount =
     (case GetOrNewStateObject X s addr of
        (obj, s1) \<Rightarrow>
          s1\<lparr>objects := (objects s1)(addr \<mapsto>
                 obj\<lparr>data := (data obj)\<lparr>Balance := Balance (data obj) - amount\<rparr>,
                     dirty := True\<rparr>),
             dirtyAddrs := insert addr (dirtyAddrs s1)\<rparr>)"

definition GetNonce :: "externals \<Rightarrow> 'j StateDB \<Rightarrow> address \<Rightarrow> 64 word \<times> 'j StateDB" where
  "GetNonce X s addr =
     (case getStateObject X s addr of
        (Some obj, s1) \<Rightarrow> (Nonce (data obj), s1)
      | (None, s1) \<Rightarrow> (0, s1))"

definition SetNonce :: "externals \<Rightarrow> 'j StateDB \<Rightarrow> address \<Rightarrow> 64 word \<Rightarrow> 'j StateDB" where
  "SetNonce X s addr nonce =
     (case GetOrNewStateObject X s addr of
        (obj, s1) \<Rightarrow>
          s1\<lparr>objects := (objects s1)(addr \<mapsto> obj\<lparr>data := (data obj)\<lparr>Nonce := nonce\<rparr>,
                                                     dirty := True\<rparr>),
             dirtyAddrs := insert addr (dirtyAddrs s1)\<rparr>)"

definition GetCode :: "externals \<Rightarrow> 'j StateDB \<Rightarrow> address \<Rightarrow> bytes \<times> 'j StateDB" where
  "GetCode X s addr =
     (case getStateObject X s addr of
        (Some obj, s1) \<Rightarrow> (code obj, s1)
      | (None, s1) \<Rightarrow> ([], s1))"

definition SetCode :: "externals \<Rightarrow> 'j StateDB \<Rightarrow> address \<Rightarrow> bytes \<Rightarrow> 'j StateDB" where
  "SetCode X s addr c =
     (case GetOrNewStateObject X s addr of
        (obj, s1) \<Rightarrow>
          s1\<lparr>objects := (objects s1)(addr \<mapsto>
                 obj\<lparr>code := c, codeHash := Keccak256 X c,
                     data := (data obj)\<lparr>CodeHash := Keccak256 X c\<rparr>, dirty := True\<rparr>),
             dirtyAddrs := insert addr (dirtyAddrs s1)\<rparr>)"

definition GetCodeHash :: "externals \<Rightarrow> 'j StateDB \<Rightarrow> address \<Rightarrow> hash \<times> 'j StateDB" where
  "GetCodeHash X s addr =
     (case getStateObject X s addr of
        (Some obj, s1) \<Rightarrow>
          if length (codeHash obj) > 0 then (BytesToHash (codeHash obj), s1) else (0, s1)
      | (None, s1) \<Rightarrow> (0, s1))"

definition GetCodeSize :: "externals \<Rightarrow> 'j StateDB \<Rightarrow> address \<Rightarrow> nat \<times> 'j StateDB" where
  "GetCodeSize X s addr =
     (case getStateObject X s addr of
        (Some obj, s1) \<Rightarrow> (length (code obj), s1)
      | (None, s1) \<Rightarrow> (0, s1))"

text \<open>
  \<open>GetState\<close>. The object is the one \<open>getStateObject\<close> returns; a value found in the
  database is written into that object's \<open>originStorage\<close>.
\<close>

definition GetState :: "externals \<Rightarrow> 'j StateDB \<Rightarrow> address \<Rightarrow> hash \<Rightarrow> hash \<times> 'j StateDB" where
  "GetState X s addr key =
     (case getStateObject X s addr of
        (None, s1) \<Rightarrow> (0, s1)
      | (Some obj, s1) \<Rightarrow>
          (case dirtyStorage obj key of
             Some val \<Rightarrow> (val, s1)
           | None \<Rightarrow>
               (case pendingStorage obj key of
                  Some val \<Rightarrow> (val, s1)
                | None \<Rightarrow>
                    (case originStorage obj key of
                       Some val \<Rightarrow> (val, s1)
                     | None \<Rightarrow>
                         (case db s1 of
                            None \<Rightarrow> (0, s1)
                          | Some d \<Rightarrow>
                              (case ReadStorageData d (addrHash obj)
                                      (Keccak256Hash X (hash_bytes key)) of
                                 None \<Rightarrow> (0, s1)
                               | Some dat \<Rightarrow>
                                   (BytesToHash dat,
                                    s1\<lparr>objects := (objects s1)(addr \<mapsto>
                                          obj\<lparr>originStorage :=
                                                 (originStorage obj)(key \<mapsto> BytesToHash dat)\<rparr>)\<rparr>)))))))"

definition SetState :: "externals \<Rightarrow> 'j StateDB \<Rightarrow> address \<Rightarrow> hash \<Rightarrow> hash \<Rightarrow> 'j StateDB" where
  "SetState X s addr key val =
     (case GetOrNewStateObject X s addr of
        (obj, s1) \<Rightarrow>
          s1\<lparr>objects := (objects s1)(addr \<mapsto>
                 obj\<lparr>dirtyStorage := (dirtyStorage obj)(key \<mapsto> val), dirty := True\<rparr>),
             dirtyAddrs := insert addr (dirtyAddrs s1)\<rparr>)"

definition Exist :: "externals \<Rightarrow> 'j StateDB \<Rightarrow> address \<Rightarrow> bool \<times> 'j StateDB" where
  "Exist X s addr = (case getStateObject X s addr of (r, s1) \<Rightarrow> (r \<noteq> None, s1))"

definition emptyObject :: "stateObject \<Rightarrow> bool" where
  "emptyObject obj \<longleftrightarrow> Nonce (data obj) = 0 \<and> Balance (data obj) = 0 \<and> length (code obj) = 0"

definition Empty :: "externals \<Rightarrow> 'j StateDB \<Rightarrow> address \<Rightarrow> bool \<times> 'j StateDB" where
  "Empty X s addr =
     (case getStateObject X s addr of
        (None, s1) \<Rightarrow> (True, s1)
      | (Some obj, s1) \<Rightarrow>
          (Nonce (data obj) = 0 \<and> Balance (data obj) = 0 \<and> length (code obj) = 0, s1))"

definition CreateAccount :: "externals \<Rightarrow> 'j StateDB \<Rightarrow> address \<Rightarrow> 'j StateDB" where
  "CreateAccount X s addr = snd (GetOrNewStateObject X s addr)"

definition Suicide :: "externals \<Rightarrow> 'j StateDB \<Rightarrow> address \<Rightarrow> bool \<times> 'j StateDB" where
  "Suicide X s addr =
     (case getStateObject X s addr of
        (None, s1) \<Rightarrow> (False, s1)
      | (Some obj, s1) \<Rightarrow>
          (True,
           s1\<lparr>objects := (objects s1)(addr \<mapsto> obj\<lparr>suicided := True,
                                                      data := (data obj)\<lparr>Balance := 0\<rparr>\<rparr>),
              dirtyAddrs := insert addr (dirtyAddrs s1)\<rparr>))"

definition HasSuicided :: "externals \<Rightarrow> 'j StateDB \<Rightarrow> address \<Rightarrow> bool \<times> 'j StateDB" where
  "HasSuicided X s addr =
     (case getStateObject X s addr of
        (Some obj, s1) \<Rightarrow> (suicided obj, s1)
      | (None, s1) \<Rightarrow> (False, s1))"

subsection \<open>Snapshots\<close>

definition Snapshot :: "'j StateDB \<Rightarrow> int \<times> 'j StateDB" where
  "Snapshot s =
     (nextRevisionId s,
      s\<lparr>nextRevisionId := nextRevisionId s + 1,
        validRevisions := validRevisions s @
           [\<lparr>id_revision = nextRevisionId s, journalIndex = int (length (journal s))\<rparr>]\<rparr>)"

text \<open>
  The search \<open>for i := len(s.validRevisions) - 1; i >= 0; i--\<close>: called with the
  length of the list, it returns the last index holding the id, or \<open>-1\<close>.
\<close>

fun findRevision :: "revision list \<Rightarrow> int \<Rightarrow> nat \<Rightarrow> int" where
  "findRevision revs revid 0 = - 1"
| "findRevision revs revid (Suc i) =
     (if id_revision (revs ! i) = revid then int i else findRevision revs revid i)"

text \<open>
  The loop \<open>for i := len(entries) - 1; i >= journalIndex; i--\<close> that calls
  \<open>entries[i].revert(s)\<close>; the second argument counts \<open>i + 1\<close>. An index beyond the
  journal is Go's panic, \<open>None\<close>.
\<close>

fun revertEntries ::
  "('j \<Rightarrow> 'j StateDB \<Rightarrow> 'j StateDB) \<Rightarrow> int \<Rightarrow> nat \<Rightarrow> 'j StateDB \<Rightarrow> 'j StateDB option" where
  "revertEntries rv lo 0 s = Some s"
| "revertEntries rv lo (Suc i) s =
     (if int i < lo then Some s
      else if i < length (journal s) then revertEntries rv lo i (rv (journal s ! i) s)
      else None)"

text \<open>
  \<open>RevertToSnapshot\<close>. The slice expressions \<open>entries[:journalIndex]\<close> and
  \<open>validRevisions[:idx]\<close> panic when the bound is negative or beyond the slice
  (\<open>None\<close>).
\<close>

definition RevertToSnapshot ::
  "('j \<Rightarrow> 'j StateDB \<Rightarrow> 'j StateDB) \<Rightarrow> 'j StateDB \<Rightarrow> int \<Rightarrow> 'j StateDB option" where
  "RevertToSnapshot rv s revid =
     (let idx = findRevision (validRevisions s) revid (length (validRevisions s)) in
      if idx < 0 then Some s
      else
        let snapshot = validRevisions s ! nat idx in
        case revertEntries rv (journalIndex snapshot) (length (journal s)) s of
          None \<Rightarrow> None
        | Some s1 \<Rightarrow>
            if journalIndex snapshot < 0 \<or> int (length (journal s1)) < journalIndex snapshot
               \<or> length (validRevisions s1) < nat idx
            then None
            else Some (s1\<lparr>journal := take (nat (journalIndex snapshot)) (journal s1),
                         validRevisions := take (nat idx) (validRevisions s1)\<rparr>))"

subsection \<open>Finalise, root and commit\<close>

text \<open>
  \<open>Finalise\<close> ranges over the map \<open>s.dirty\<close>; Go leaves the order of a map range
  unspecified, so the order in which the runtime yields the keys is the list
  \<open>order\<close>, an enumeration of the dirty set. The inner range that copies
  \<open>dirtyStorage\<close> into \<open>pendingStorage\<close> assigns each key once, which is
  \<open>pendingStorage ++ dirtyStorage\<close> in any order.
\<close>

fun finaliseLoop :: "bool \<Rightarrow> address list \<Rightarrow> 'j StateDB \<Rightarrow> 'j StateDB" where
  "finaliseLoop deleteEmptyObjects [] s = s"
| "finaliseLoop deleteEmptyObjects (addr # rest) s =
     (case objects s addr of
        None \<Rightarrow> finaliseLoop deleteEmptyObjects rest s
      | Some obj \<Rightarrow>
          if suicided obj then
            finaliseLoop deleteEmptyObjects rest
              (s\<lparr>objects := (objects s)(addr \<mapsto> obj\<lparr>deleted := True\<rparr>),
                 deletedAddrs := insert addr (deletedAddrs s)\<rparr>)
          else
            let obj1 = obj\<lparr>pendingStorage := pendingStorage obj ++ dirtyStorage obj,
                           dirtyStorage := Map.empty\<rparr>
            in if deleteEmptyObjects \<and> emptyObject obj1 then
                 finaliseLoop deleteEmptyObjects rest
                   (s\<lparr>objects := (objects s)(addr \<mapsto> obj1\<lparr>deleted := True\<rparr>),
                      deletedAddrs := insert addr (deletedAddrs s)\<rparr>)
               else
                 finaliseLoop deleteEmptyObjects rest
                   (s\<lparr>objects := (objects s)(addr \<mapsto> obj1)\<rparr>))"

definition Finalise :: "address list \<Rightarrow> bool \<Rightarrow> 'j StateDB \<Rightarrow> 'j StateDB" where
  "Finalise order deleteEmptyObjects s =
     (finaliseLoop deleteEmptyObjects order s)\<lparr>dirtyAddrs := {}\<rparr>"

text \<open>
  The bytes \<open>IntermediateRoot\<close> writes to the hasher while it ranges over
  \<open>s.objects\<close> in the order \<open>order\<close>: for each object that is not deleted, the
  address and the RLP encoding of the account (nil when the encoding fails, the
  error being dropped).
\<close>

fun hasherInput :: "externals \<Rightarrow> (address \<rightharpoonup> stateObject) \<Rightarrow> address list \<Rightarrow> bytes" where
  "hasherInput X objs [] = []"
| "hasherInput X objs (addr # rest) =
     (case objs addr of
        None \<Rightarrow> hasherInput X objs rest
      | Some obj \<Rightarrow>
          if deleted obj then hasherInput X objs rest
          else addr_bytes addr
               @ (case EncodeToBytes X (data obj) of None \<Rightarrow> [] | Some b \<Rightarrow> b)
               @ hasherInput X objs rest)"

definition IntermediateRoot ::
  "externals \<Rightarrow> address list \<Rightarrow> address list \<Rightarrow> bool \<Rightarrow> 'j StateDB \<Rightarrow> hash \<times> 'j StateDB" where
  "IntermediateRoot X dirtyOrder objOrder deleteEmptyObjects s =
     (let s1 = Finalise dirtyOrder deleteEmptyObjects s;
          r = Keccak256Hash X (hasherInput X (objects s1) objOrder)
      in if r = 0 then (emptyRoot, s1) else (r, s1\<lparr>root := r\<rparr>))"

definition Commit ::
  "externals \<Rightarrow> address list \<Rightarrow> address list \<Rightarrow> bool \<Rightarrow> 'j StateDB \<Rightarrow> hash \<times> 'j StateDB" where
  "Commit X dirtyOrder objOrder deleteEmptyObjects s =
     IntermediateRoot X dirtyOrder objOrder deleteEmptyObjects s"


text \<open>
  \<open>CommitToDB\<close>. The range over \<open>s.objects\<close> runs in the order \<open>objOrder\<close>, the
  range over an object's \<open>pendingStorage\<close> in the order \<open>keyOrder addr\<close>. The
  account record goes to the batch; the deletion of an account, the code and the
  storage entries are handed the database itself. An encoding error returns
  before \<open>batch.Write\<close> is reached. The function returns the error and the contents
  of the database it was given.
\<close>

fun writeStorage ::
  "externals \<Rightarrow> hash \<Rightarrow> (hash \<rightharpoonup> hash) \<Rightarrow> hash list \<Rightarrow> Database \<Rightarrow> Database" where
  "writeStorage X ah pend [] d = d"
| "writeStorage X ah pend (key # rest) d =
     (case pend key of
        None \<Rightarrow> writeStorage X ah pend rest d
      | Some val \<Rightarrow>
          if val = 0
          then writeStorage X ah pend rest
                 (DeleteStorageData d ah (Keccak256Hash X (hash_bytes key)))
          else writeStorage X ah pend rest
                 (WriteStorageData d ah (Keccak256Hash X (hash_bytes key)) (hash_bytes val)))"

fun commitLoop ::
  "externals \<Rightarrow> (address \<rightharpoonup> stateObject) \<Rightarrow> (address \<Rightarrow> hash list) \<Rightarrow> address list
     \<Rightarrow> Batch \<Rightarrow> Database \<Rightarrow> commit_error option \<times> Batch \<times> Database" where
  "commitLoop X objs keyOrder [] batch d = (None, batch, d)"
| "commitLoop X objs keyOrder (addr # rest) batch d =
     (case objs addr of
        None \<Rightarrow> commitLoop X objs keyOrder rest batch d
      | Some obj \<Rightarrow>
          if deleted obj
          then commitLoop X objs keyOrder rest batch (DeleteAccountData d (addrHash obj))
          else
            (case EncodeToBytes X (data obj) of
               None \<Rightarrow> (Some ErrEncode, batch, d)
             | Some dat \<Rightarrow>
                 let batch1 = batch_Put batch (0x61 # hash_bytes (addrHash obj)) dat;
                     d1 = (if length (code obj) > 0 \<and> dirty obj
                           then WriteCode d (BytesToHash (codeHash obj)) (code obj)
                           else d);
                     d2 = writeStorage X (addrHash obj) (pendingStorage obj) (keyOrder addr) d1
                 in commitLoop X objs keyOrder rest batch1 d2))"

definition CommitToDB ::
  "externals \<Rightarrow> address list \<Rightarrow> (address \<Rightarrow> hash list) \<Rightarrow> bool \<Rightarrow> 'j StateDB
     \<Rightarrow> Database option \<Rightarrow> hash \<Rightarrow> commit_error option \<times> Database option" where
  "CommitToDB X objOrder keyOrder writeOk s dbo r =
     (case dbo of
        None \<Rightarrow> (None, None)
      | Some d \<Rightarrow>
          (case commitLoop X (objects s) keyOrder objOrder [] d of
             (Some e, batch, d1) \<Rightarrow> (Some e, Some d1)
           | (None, batch, d1) \<Rightarrow>
               (case batch_Write writeOk batch d1 of (e, d2) \<Rightarrow> (e, Some d2))))"

section \<open>The block synchronizer\<close>

text \<open>
  A peer as the synchronizer reads it: its identifier, its total difficulty (a
  \<open>*big.Int\<close>, possibly nil) and its head number. A block is read through
  \<open>NumberU64\<close> only; \<open>payload\<close> stands for the rest of it.
\<close>

record Peer =
  id_peer :: string
  td :: "int option"
  number :: "64 word"

record ObsidianBlock =
  NumberU64 :: "64 word"
  payload :: nat

record Synchronizer =
  handler :: "Peer list option"
  syncing :: "32 word"
  currentPeer :: "Peer option"
  startBlock :: "64 word"
  targetBlock :: "64 word"
  currentBlock :: "64 word"
  pendingBlocks :: "64 word \<rightharpoonup> ObsidianBlock"

text \<open>The loop of \<open>findBestPeer\<close> over \<open>peers\<close>, carrying \<open>best\<close> and \<open>bestTD\<close>.\<close>

fun bestLoop :: "Peer list \<Rightarrow> Peer option \<Rightarrow> int option \<Rightarrow> Peer option" where
  "bestLoop [] best bestTD = best"
| "bestLoop (p # ps) best bestTD =
     (case td p of
        None \<Rightarrow> bestLoop ps best bestTD
      | Some t \<Rightarrow>
          (case bestTD of
             None \<Rightarrow> bestLoop ps (Some p) (Some t)
           | Some b \<Rightarrow> if t > b then bestLoop ps (Some p) (Some t) else bestLoop ps best bestTD))"

definition findBestPeer :: "Synchronizer \<Rightarrow> Peer option" where
  "findBestPeer s =
     (case handler s of
        None \<Rightarrow> None
      | Some peers \<Rightarrow> if length peers = 0 then None else bestLoop peers None None)"

text \<open>
  One iteration of the loop of \<open>run\<close>, up to the point where it sleeps, returns or
  calls \<open>syncWithPeer\<close>. Its inputs are whether the cancel channel is closed and
  what \<open>backend.GetTD\<close> returns for the local head (nil is \<open>None\<close>).
\<close>

datatype run_action =
    RunReturn
  | SleepNoPeers
  | SleepNotAhead
  | CallSyncWithPeer Peer "64 word"

definition run_iteration :: "bool \<Rightarrow> int option \<Rightarrow> Synchronizer \<Rightarrow> run_action" where
  "run_iteration cancelled backendTD s =
     (if cancelled then RunReturn
      else
        (case findBestPeer s of
           None \<Rightarrow> SleepNoPeers
         | Some peer \<Rightarrow>
             let ourTD = (case backendTD of None \<Rightarrow> 0 | Some t \<Rightarrow> t) in
             (case td peer of
                None \<Rightarrow> SleepNotAhead
              | Some peerTD \<Rightarrow>
                  if peerTD \<le> ourTD then SleepNotAhead
                  else CallSyncWithPeer peer (number peer))))"

text \<open>\<open>DeliverBlock\<close>: dropped unless a sync is active, else stored under its number.\<close>

definition DeliverBlock :: "Synchronizer \<Rightarrow> ObsidianBlock \<Rightarrow> Synchronizer" where
  "DeliverBlock s block =
     (if syncing s \<noteq> 1 then s
      else s\<lparr>pendingBlocks := (pendingBlocks s)(NumberU64 block \<mapsto> block)\<rparr>)"

text \<open>
  What the environment does during one iteration of the loop of \<open>syncWithPeer\<close>:
  the blocks delivered (by concurrent calls of \<open>DeliverBlock\<close>) before the
  iteration looks into the cache, whether the cancel channel is closed at the
  \<open>select\<close>, whether \<open>p2p.Send\<close> fails, the blocks delivered while \<open>waitForBlock\<close>
  polls (until it finds the number, or the deadline passes), and whether
  \<open>backend.InsertBlock\<close> fails.
\<close>

record iter_env =
  arrivals :: "ObsidianBlock list"
  cancelClosed :: bool
  sendFails :: bool
  arrivalsDuringWait :: "ObsidianBlock list"
  insertFails :: bool

text \<open>
  \<open>waitForBlock\<close>: the block of the wanted number if the cache holds it by the
  deadline (its entry is then deleted), nil otherwise.
\<close>

definition waitForBlock ::
  "iter_env \<Rightarrow> Synchronizer \<Rightarrow> 64 word \<Rightarrow> ObsidianBlock option \<times> Synchronizer" where
  "waitForBlock e s num =
     (let s1 = foldl DeliverBlock s (arrivalsDuringWait e) in
      case pendingBlocks s1 num of
        Some block \<Rightarrow> (Some block, s1\<lparr>pendingBlocks := (pendingBlocks s1)(num := None)\<rparr>)
      | None \<Rightarrow> (None, s1))"

text \<open>
  How an iteration of the loop ends; each outcome but the last is the one the code
  logs or returns an error for.
\<close>

datatype iter_outcome =
    Cancelled
  | SendFailed
  | TimedOut
  | NumberMismatch
  | InsertFailed
  | Inserted

text \<open>
  The part of the loop body from the number check on: a mismatch retries the same
  number; a failed insertion moves to the next number; a successful one stores
  the number in \<open>currentBlock\<close> and moves on.
\<close>

definition insertStep ::
  "iter_env \<Rightarrow> Synchronizer \<Rightarrow> 64 word \<Rightarrow> ObsidianBlock
     \<Rightarrow> iter_outcome \<times> Synchronizer \<times> 64 word" where
  "insertStep e s num block =
     (if NumberU64 block \<noteq> num then (NumberMismatch, s, num)
      else if insertFails e then (InsertFailed, s, num + 1)
      else (Inserted, s\<lparr>currentBlock := num\<rparr>, num + 1))"

definition syncIteration ::
  "iter_env \<Rightarrow> Synchronizer \<Rightarrow> 64 word \<Rightarrow> iter_outcome \<times> Synchronizer \<times> 64 word" where
  "syncIteration e s0 num =
     (let s = foldl DeliverBlock s0 (arrivals e) in
      if cancelClosed e then (Cancelled, s, num)
      else
        (case pendingBlocks s num of
           Some block \<Rightarrow>
             insertStep e (s\<lparr>pendingBlocks := (pendingBlocks s)(num := None)\<rparr>) num block
         | None \<Rightarrow>
             if sendFails e then (SendFailed, s, num)
             else
               (case waitForBlock e s num of
                  (None, s1) \<Rightarrow> (TimedOut, s1, num)
                | (Some block, s1) \<Rightarrow> insertStep e s1 num block)))"

datatype sync_error = ErrCancelled | ErrRequestFailed "64 word"

text \<open>
  The loop \<open>for num := ourNum + 1; num <= targetNum;\<close>. It can run for ever (a
  block that never arrives is requested again and again), so it is driven by the
  list of what the environment does in each iteration: \<open>None\<close> when the list is
  used up with the loop still running, otherwise the error returned (\<open>None\<close> for
  nil) and the final state.
\<close>

fun syncLoop ::
  "iter_env list \<Rightarrow> Synchronizer \<Rightarrow> 64 word \<Rightarrow> 64 word
     \<Rightarrow> (sync_error option \<times> Synchronizer) option" where
  "syncLoop [] s targetNum num =
     (if num \<le> targetNum then None else Some (None, s\<lparr>currentPeer := None\<rparr>))"
| "syncLoop (e # es) s targetNum num =
     (if num \<le> targetNum then
        (case syncIteration e s num of
           (Cancelled, s1, num1) \<Rightarrow> Some (Some ErrCancelled, s1)
         | (SendFailed, s1, num1) \<Rightarrow> Some (Some (ErrRequestFailed num), s1)
         | (outcome, s1, num1) \<Rightarrow> syncLoop es s1 targetNum num1)
      else Some (None, s\<lparr>currentPeer := None\<rparr>))"

text \<open>\<open>syncWithPeer\<close>; \<open>ourNum\<close> is the number of \<open>backend.CurrentBlock()\<close>.\<close>

definition syncWithPeer ::
  "iter_env list \<Rightarrow> 64 word \<Rightarrow> Synchronizer \<Rightarrow> Peer \<Rightarrow> 64 word
     \<Rightarrow> (sync_error option \<times> Synchronizer) option" where
  "syncWithPeer es ourNum s peer targetNum =
     (if targetNum \<le> ourNum then Some (None, s)
      else syncLoop es (s\<lparr>currentPeer := Some peer, startBlock := ourNum,
                          targetBlock := targetNum, currentBlock := ourNum\<rparr>)
             targetNum (ourNum + 1))"

section \<open>Notions used to state the properties\<close>

text \<open>
  The zero-default account object of the spec: balance 0, nonce 0, code hash of the
  empty code, empty-trie storage root, no code, empty storage layers, no flag set.
\<close>

definition zeroDefault :: "externals \<Rightarrow> address \<Rightarrow> stateObject \<Rightarrow> bool" where
  "zeroDefault X addr obj \<longleftrightarrow>
     address obj = addr \<and> addrHash obj = Keccak256Hash X (addr_bytes addr) \<and>
     Balance (data obj) = 0 \<and> Nonce (data obj) = 0 \<and>
     CodeHash (data obj) = hash_bytes (emptyCodeHash X) \<and> Root (data obj) = emptyRoot \<and>
     code obj = [] \<and> codeHash obj = [] \<and>
     originStorage obj = Map.empty \<and> pendingStorage obj = Map.empty \<and>
     dirtyStorage obj = Map.empty \<and>
     \<not> dirty obj \<and> \<not> suicided obj \<and> \<not> deleted obj"

text \<open>
  The resolution order of the spec for a storage key, in the spec's words: the
  working layer first, then pending, then origin (\<open>m ++ n\<close> prefers \<open>n\<close>), and, for a
  key in none of them, the lookup in the persistent layer.
\<close>

definition layeredLookup :: "stateObject \<Rightarrow> hash \<Rightarrow> hash option" where
  "layeredLookup obj key = (originStorage obj ++ pendingStorage obj ++ dirtyStorage obj) key"

definition persistentLookup ::
  "externals \<Rightarrow> 'j StateDB \<Rightarrow> stateObject \<Rightarrow> hash \<Rightarrow> hash option" where
  "persistentLookup X s obj key =
     (case db s of
        None \<Rightarrow> None
      | Some d \<Rightarrow>
          map_option BytesToHash
            (ReadStorageData d (addrHash obj) (Keccak256Hash X (hash_bytes key))))"

text \<open>
  The test of \<open>bestLoop\<close> for replacing the best peer so far, as one predicate.
\<close>

definition takesOver :: "Peer \<Rightarrow> int option \<Rightarrow> bool" where
  "takesOver p bestTD \<longleftrightarrow>
     (case td p of None \<Rightarrow> False
      | Some t \<Rightarrow> (case bestTD of None \<Rightarrow> True | Some b \<Rightarrow> b < t))"

subsection \<open>Sample inputs\<close>

text \<open>
  Concrete inputs at which the theorems below are instantiated. \<open>stubExternals\<close>
  fixes the library parameters to simple functions (a constant digest, a constant
  encoding, a decoder that accepts every record).
\<close>

definition stubExternals :: externals where
  "stubExternals =
     \<lparr>Keccak256Hash = (\<lambda>b. 1), EncodeToBytes = (\<lambda>a. Some [0xc0]),
      DecodeBytes = (\<lambda>b. Some \<lparr>Nonce = 3, Balance = 7, Root = emptyRoot, CodeHash = []\<rparr>)\<rparr>"

text \<open>Two balance writes to two addresses, applied in either order.\<close>

definition twoAccounts :: "externals \<Rightarrow> unit StateDB" where
  "twoAccounts X = SetBalance X (SetBalance X NewMemoryStateDB 1 10) 2 20"

definition twoAccountsReversed :: "externals \<Rightarrow> unit StateDB" where
  "twoAccountsReversed X = SetBalance X (SetBalance X NewMemoryStateDB 2 20) 1 10"

text \<open>One account with one finalised storage slot, \<open>2 \<mapsto> 5\<close>.\<close>

definition oneSlot :: "externals \<Rightarrow> unit StateDB" where
  "oneSlot X = Finalise [1] False (SetState X NewMemoryStateDB 1 2 5)"

text \<open>
  The same store with a second account whose balance is \<open>- 1\<close>, and library
  parameters whose encoder rejects a negative balance (as RLP does) and otherwise
  returns \<open>enc\<close>.
\<close>

definition slotAndDebtor :: "externals \<Rightarrow> unit StateDB" where
  "slotAndDebtor X = Finalise [2] False (SubBalance X (oneSlot X) 2 1)"

definition rejectNegative :: "externals \<Rightarrow> bytes \<Rightarrow> externals" where
  "rejectNegative X enc =
     X\<lparr>EncodeToBytes := (\<lambda>a. if Balance a < 0 then None else Some enc)\<rparr>"

text \<open>An account that was funded, suicided and finalised.\<close>

definition suicidedAccount :: "externals \<Rightarrow> unit StateDB" where
  "suicidedAccount X =
     Finalise [1] False (snd (Suicide X (SetBalance X NewMemoryStateDB 1 5) 1))"

text \<open>
  A database holding an account record and one storage slot of value 42 (under
  the keys the constant digest of \<open>stubExternals\<close> leads to), and a store on it.
\<close>

definition persistedDB :: Database where
  "persistedDB = [accountDataKey 1 \<mapsto> [0xc0], storageKey 1 1 \<mapsto> [0x2a]]"

definition persistedStore :: "unit StateDB" where
  "persistedStore = NewWithDB emptyRoot (Some persistedDB)"

text \<open>Three peers of total difficulty 5, 12 and 9.\<close>

definition peerA :: Peer where
  "peerA = \<lparr>id_peer = ''peer-a'', td = Some 5, number = 40\<rparr>"

definition peerB :: Peer where
  "peerB = \<lparr>id_peer = ''peer-b'', td = Some 12, number = 90\<rparr>"

definition peerC :: Peer where
  "peerC = \<lparr>id_peer = ''peer-c'', td = Some 9, number = 70\<rparr>"

definition idleSynchronizer :: "Peer list \<Rightarrow> Synchronizer" where
  "idleSynchronizer peers =
     \<lparr>handler = Some peers, syncing = 1, currentPeer = None, startBlock = 0, targetBlock = 0,
      currentBlock = 0, pendingBlocks = Map.empty\<rparr>"

text \<open>
  A synchronizer whose cache already holds block 107, and an iteration in which
  nothing arrives, nothing is cancelled and \<open>InsertBlock\<close> fails.
\<close>

definition block107 :: ObsidianBlock where
  "block107 = \<lparr>NumberU64 = 107, payload = 0\<rparr>"

definition syncingAt107 :: Synchronizer where
  "syncingAt107 =
     \<lparr>handler = Some [peerB], syncing = 1, currentPeer = None, startBlock = 0,
      targetBlock = 0, currentBlock = 0, pendingBlocks = [107 \<mapsto> block107]\<rparr>"

definition failingInsert :: iter_env where
  "failingInsert = \<lparr>arrivals = [], cancelClosed = False, sendFails = False,
                     arrivalsDuringWait = [], insertFails = True\<rparr>"

text \<open>
  A synchronizer whose cache is empty, and an iteration in which block 107
  arrives while \<open>waitForBlock\<close> polls and \<open>InsertBlock\<close> fails.
\<close>

definition syncingEmptyCache :: Synchronizer where
  "syncingEmptyCache =
     \<lparr>handler = Some [peerB], syncing = 1, currentPeer = None, startBlock = 0,
      targetBlock = 0, currentBlock = 0, pendingBlocks = Map.empty\<rparr>"

definition failingInsertAfterFetch :: iter_env where
  "failingInsertAfterFetch =
     \<lparr>arrivals = [], cancelClosed = False, sendFails = False,
      arrivalsDuringWait = [block107], insertFails = True\<rparr>"

section \<open>Properties of the account state store\<close>

subsection \<open>Objects and lookups\<close>

lemma createObject_zero: "zeroDefault X addr (fst (createObject X s addr))"
  by (simp add: createObject_def zeroDefault_def Let_def)

lemma createObject_store:
  "snd (createObject X s addr)
     = s\<lparr>objects := (objects s)(addr \<mapsto> fst (createObject X s addr))\<rparr>"
  by (simp add: createObject_def Let_def)

lemma GetOrNew_deleted:
  assumes "objects s addr = Some old" and "deleted old"
  shows "GetOrNewStateObject X s addr = createObject X s addr"
  using assms by (simp add: GetOrNewStateObject_def)

lemma loadStateObject_Some:
  assumes "loadStateObject X s d addr = (Some obj, s1)"
  shows "objects s1 addr = Some obj \<and> \<not> deleted obj \<and> db s1 = db s"
  using assms
  by (auto simp: loadStateObject_def Let_def split: option.splits if_splits)

lemma getStateObject_Some:
  assumes "getStateObject X s addr = (Some obj, s1)"
  shows "objects s1 addr = Some obj \<and> \<not> deleted obj \<and> db s1 = db s"
proof (cases "\<exists>o'. objects s addr = Some o' \<and> \<not> deleted o'")
  case True
  then obtain o' where "objects s addr = Some o'" "\<not> deleted o'" by blast
  then show ?thesis using assms by (simp add: getStateObject_def Let_def)
next
  case False
  then have "getStateObject X s addr =
      (case db s of Some d \<Rightarrow> loadStateObject X s d addr | None \<Rightarrow> (None, s))"
    by (cases "objects s addr") (simp_all add: getStateObject_def Let_def)
  with assms obtain d where "db s = Some d" "loadStateObject X s d addr = (Some obj, s1)"
    by (auto split: option.splits)
  then show ?thesis using loadStateObject_Some by blast
qed

lemma getStateObject_None:
  assumes "getStateObject X s addr = (None, s1)"
  shows "s1 = s \<and> (case objects s addr of None \<Rightarrow> True | Some obj \<Rightarrow> deleted obj)"
  using assms
  by (auto simp: getStateObject_def loadStateObject_def Let_def split: option.splits if_splits)

lemma getStateObject_live:
  assumes "objects s addr = Some obj" and "\<not> deleted obj"
  shows "getStateObject X s addr = (Some obj, s)"
  using assms by (simp add: getStateObject_def Let_def)

subsection \<open>Snapshot and revert\<close>

lemma journal_SetBalance: "journal (SetBalance X s addr amount) = journal s"
  by (simp add: SetBalance_def GetOrNewStateObject_def createObject_def Let_def
      split: option.splits)

lemma journal_AddBalance: "journal (AddBalance X s addr amount) = journal s"
  by (simp add: AddBalance_def GetOrNewStateObject_def createObject_def Let_def
      split: option.splits)

lemma journal_SubBalance: "journal (SubBalance X s addr amount) = journal s"
  by (simp add: SubBalance_def GetOrNewStateObject_def createObject_def Let_def
      split: option.splits)

lemma journal_SetNonce: "journal (SetNonce X s addr nonce) = journal s"
  by (simp add: SetNonce_def GetOrNewStateObject_def createObject_def Let_def
      split: option.splits)

lemma journal_SetCode: "journal (SetCode X s addr c) = journal s"
  by (simp add: SetCode_def GetOrNewStateObject_def createObject_def Let_def
      split: option.splits)

lemma journal_SetState: "journal (SetState X s addr key val) = journal s"
  by (simp add: SetState_def GetOrNewStateObject_def createObject_def Let_def
      split: option.splits)

text \<open>
  C1 (snapshot/revert round trip) does not hold of the code. No write appends to
  the journal: each of the six writes leaves it as it was. So on a fresh store,
  taking a snapshot, setting a balance and reverting to the snapshot only removes
  the revision: the store is the one the write produced (with the revision
  counter advanced), and the balance read back is the written amount, while it
  was 0 before the write.
\<close>

theorem snapshot_revert_restores_nothing:
  "journal (SetBalance X s addr amount) = journal s
   \<and> journal (AddBalance X s addr amount) = journal s
   \<and> journal (SubBalance X s addr amount) = journal s
   \<and> journal (SetNonce X s addr nonce) = journal s
   \<and> journal (SetCode X s addr c) = journal s
   \<and> journal (SetState X s addr key val) = journal s
   \<and> RevertToSnapshot rv (SetBalance X (snd (Snapshot NewMemoryStateDB)) addr amount)
         (fst (Snapshot NewMemoryStateDB))
       = Some ((SetBalance X NewMemoryStateDB addr amount)\<lparr>nextRevisionId := 1\<rparr>)
   \<and> fst (GetBalance X ((SetBalance X NewMemoryStateDB addr amount)\<lparr>nextRevisionId := 1\<rparr>) addr)
       = amount
   \<and> fst (GetBalance X NewMemoryStateDB addr) = 0"
proof -
  have "RevertToSnapshot rv (SetBalance X (snd (Snapshot NewMemoryStateDB)) addr amount)
         (fst (Snapshot NewMemoryStateDB))
       = Some ((SetBalance X NewMemoryStateDB addr amount)\<lparr>nextRevisionId := 1\<rparr>)"
    by (simp add: RevertToSnapshot_def Snapshot_def NewMemoryStateDB_def SetBalance_def
        GetOrNewStateObject_def createObject_def Let_def)
  moreover have
    "fst (GetBalance X ((SetBalance X NewMemoryStateDB addr amount)\<lparr>nextRevisionId := 1\<rparr>) addr)
       = amount"
    by (simp add: NewMemoryStateDB_def SetBalance_def GetOrNewStateObject_def createObject_def
        GetBalance_def getStateObject_def Let_def)
  moreover have "fst (GetBalance X NewMemoryStateDB addr) = 0"
    by (simp add: NewMemoryStateDB_def GetBalance_def getStateObject_def Let_def)
  ultimately show ?thesis
    by (simp only: journal_SetBalance journal_AddBalance journal_SubBalance journal_SetNonce
        journal_SetCode journal_SetState simp_thms)
qed

subsection \<open>The root\<close>

lemma addr_bytes_1_2: "addr_bytes 1 \<noteq> addr_bytes 2"
  by (simp add: addr_bytes_def be_bytes_def upt_rec)

lemma length_addr_bytes: "length (addr_bytes a) = 20"
  by (simp add: addr_bytes_def be_bytes_def)

lemma prefix_differs:
  assumes "length a = length b" and "a \<noteq> b"
  shows "a @ x \<noteq> b @ y"
  using assms by simp

lemma twoAccounts_eq: "twoAccounts X = twoAccountsReversed X"
  by (simp add: twoAccounts_def twoAccountsReversed_def NewMemoryStateDB_def SetBalance_def
      GetOrNewStateObject_def createObject_def Let_def fun_upd_twist insert_commute)

lemma IntermediateRoot_fst:
  "fst (IntermediateRoot X dirtyOrder objOrder de s) =
     (if Keccak256Hash X (hasherInput X (objects (Finalise dirtyOrder de s)) objOrder) = 0
      then emptyRoot
      else Keccak256Hash X (hasherInput X (objects (Finalise dirtyOrder de s)) objOrder))"
  by (simp add: IntermediateRoot_def Let_def)

text \<open>
  C2 (root determinism) does not hold of the code. The root is the digest of the
  bytes written while ranging over the map of objects, in whatever order the range
  yields them. The two balance writes of \<open>twoAccounts\<close>, applied in either order,
  give the same store, whose objects and dirty addresses are 1 and 2; but the
  bytes hashed when the range yields 1 before 2 differ from the bytes hashed when
  it yields 2 before 1, and the root is the digest of those bytes (or the empty
  root, should the digest be zero).
\<close>

theorem root_depends_on_iteration_order:
  "twoAccounts X = twoAccountsReversed X
   \<and> dom (objects (twoAccounts X)) = set [1, 2]
   \<and> dirtyAddrs (twoAccounts X) = set [1, 2]
   \<and> hasherInput X (objects (Finalise [1, 2] False (twoAccounts X))) [1, 2]
       \<noteq> hasherInput X (objects (Finalise [2, 1] False (twoAccountsReversed X))) [2, 1]
   \<and> fst (IntermediateRoot X [1, 2] [1, 2] False (twoAccounts X))
       = (if Keccak256Hash X (hasherInput X (objects (Finalise [1, 2] False (twoAccounts X)))
                                [1, 2]) = 0
          then emptyRoot
          else Keccak256Hash X (hasherInput X (objects (Finalise [1, 2] False (twoAccounts X)))
                                  [1, 2]))
   \<and> fst (IntermediateRoot X [2, 1] [2, 1] False (twoAccountsReversed X))
       = (if Keccak256Hash X (hasherInput X
                (objects (Finalise [2, 1] False (twoAccountsReversed X))) [2, 1]) = 0
          then emptyRoot
          else Keccak256Hash X (hasherInput X
                (objects (Finalise [2, 1] False (twoAccountsReversed X))) [2, 1]))"
proof -
  have d: "dom (objects (twoAccounts X)) = set [1, 2]"
    by (auto simp: twoAccounts_def NewMemoryStateDB_def SetBalance_def
      GetOrNewStateObject_def createObject_def Let_def)
  have dd: "dirtyAddrs (twoAccounts X) = set [1, 2]"
    by (auto simp: twoAccounts_def NewMemoryStateDB_def SetBalance_def
      GetOrNewStateObject_def createObject_def Let_def)
  have "\<exists>x. hasherInput X (objects (Finalise [1, 2] False (twoAccounts X))) [1, 2]
      = addr_bytes 1 @ x"
    by (simp add: twoAccounts_def NewMemoryStateDB_def SetBalance_def Finalise_def
      GetOrNewStateObject_def createObject_def Let_def emptyObject_def)
  moreover have
    "\<exists>y. hasherInput X (objects (Finalise [2, 1] False (twoAccountsReversed X))) [2, 1]
      = addr_bytes 2 @ y"
    by (simp add: twoAccountsReversed_def NewMemoryStateDB_def SetBalance_def Finalise_def
      GetOrNewStateObject_def createObject_def Let_def emptyObject_def)
  ultimately have ne: "hasherInput X (objects (Finalise [1, 2] False (twoAccounts X))) [1, 2]
       \<noteq> hasherInput X (objects (Finalise [2, 1] False (twoAccountsReversed X))) [2, 1]"
    using prefix_differs [OF _ addr_bytes_1_2] length_addr_bytes by fastforce
  show ?thesis
    using d dd ne twoAccounts_eq [of X]
    by (simp only: IntermediateRoot_fst simp_thms)
qed

text \<open>
  C5 (empty-root constant) does not hold of the code. With no live account nothing
  is written to the hasher, and the root is the digest of the empty input, the
  very value the package calls \<open>emptyCodeHash\<close>; the empty-root constant is
  returned only if that digest is the zero hash. This is so for a fresh store and
  for a store whose only account was suicided and finalised, for either value of
  the flag.
\<close>

theorem empty_store_root_is_empty_digest:
  "IntermediateRoot X [] [] deleteEmptyObjects NewMemoryStateDB =
     (if emptyCodeHash X = 0 then (emptyRoot, NewMemoryStateDB)
      else (emptyCodeHash X, NewMemoryStateDB\<lparr>root := emptyCodeHash X\<rparr>))
   \<and> fst (IntermediateRoot X [] [1] deleteEmptyObjects (suicidedAccount X)) =
     (if emptyCodeHash X = 0 then emptyRoot else emptyCodeHash X)"
proof -
  have "IntermediateRoot X [] [] deleteEmptyObjects NewMemoryStateDB =
     (if emptyCodeHash X = 0 then (emptyRoot, NewMemoryStateDB)
      else (emptyCodeHash X, NewMemoryStateDB\<lparr>root := emptyCodeHash X\<rparr>))"
    by (simp add: IntermediateRoot_def Finalise_def NewMemoryStateDB_def emptyCodeHash_def
        Let_def)
  moreover have "hasherInput X
      (objects (Finalise [] deleteEmptyObjects (suicidedAccount X))) [1] = []"
    by (simp add: suicidedAccount_def Finalise_def Suicide_def SetBalance_def
        NewMemoryStateDB_def GetOrNewStateObject_def createObject_def getStateObject_def
        Let_def)
  then have "fst (IntermediateRoot X [] [1] deleteEmptyObjects (suicidedAccount X)) =
     (if emptyCodeHash X = 0 then emptyRoot else emptyCodeHash X)"
    by (simp only: IntermediateRoot_fst emptyCodeHash_def)
  ultimately show ?thesis by (rule conjI)
qed

subsection \<open>Commit to the database\<close>

text \<open>
  C3 (one atomic batch) does not hold of the code. Only the account record is put
  on the batch; storage entries (like code and account deletions) are written to
  the database directly. For the store \<open>oneSlot\<close>, whose account encodes without
  error, a commit to an empty database whose \<open>batch.Write\<close> fails returns the
  error and leaves the storage entry in the database, without the account record.
  For the store \<open>slotAndDebtor\<close>, the encoding of the second account fails after
  the storage entry of the first has been written: the commit returns that error,
  the batch is never written, and the storage entry stays.
\<close>

theorem commit_leaves_partial_writes:
  "CommitToDB (rejectNegative X enc) [1] (\<lambda>a. [2]) False
       (oneSlot (rejectNegative X enc)) (Some Map.empty) r
     = (Some ErrBatchWrite,
        Some [storageKey (Keccak256Hash X (addr_bytes 1)) (Keccak256Hash X (hash_bytes 2))
                \<mapsto> hash_bytes 5])
   \<and> CommitToDB (rejectNegative X enc) [1, 2] (\<lambda>a. [2]) True
       (slotAndDebtor (rejectNegative X enc)) (Some Map.empty) r
     = (Some ErrEncode,
        Some [storageKey (Keccak256Hash X (addr_bytes 1)) (Keccak256Hash X (hash_bytes 2))
                \<mapsto> hash_bytes 5])"
proof -
  have one: "CommitToDB (rejectNegative X enc) [1] (\<lambda>a. [2]) False
       (oneSlot (rejectNegative X enc)) (Some Map.empty) r
     = (Some ErrBatchWrite,
        Some [storageKey (Keccak256Hash X (addr_bytes 1)) (Keccak256Hash X (hash_bytes 2))
                \<mapsto> hash_bytes 5])"
    by (simp add: CommitToDB_def oneSlot_def rejectNegative_def Finalise_def SetState_def
        NewMemoryStateDB_def GetOrNewStateObject_def createObject_def Let_def emptyObject_def
        batch_Write_def batch_Put_def WriteStorageData_def)
  have two: "CommitToDB (rejectNegative X enc) [1, 2] (\<lambda>a. [2]) True
       (slotAndDebtor (rejectNegative X enc)) (Some Map.empty) r
     = (Some ErrEncode,
        Some [storageKey (Keccak256Hash X (addr_bytes 1)) (Keccak256Hash X (hash_bytes 2))
                \<mapsto> hash_bytes 5])"
    by (simp add: CommitToDB_def slotAndDebtor_def oneSlot_def rejectNegative_def Finalise_def
        SetState_def SubBalance_def NewMemoryStateDB_def GetOrNewStateObject_def
        createObject_def Let_def emptyObject_def batch_Write_def batch_Put_def
        WriteStorageData_def)
  from one two show ?thesis by (rule conjI)
qed

subsection \<open>Balances\<close>

text \<open>
  C4 (non-negative balance), counterexample: on a fresh store, subtracting 1 from
  the balance of an address leaves a balance that reads back negative.
\<close>

theorem SubBalance_goes_negative:
  "fst (GetBalance stubExternals
          (SubBalance stubExternals (NewMemoryStateDB :: unit StateDB) 1 1) 1) < 0"
  by (simp add: NewMemoryStateDB_def SubBalance_def GetOrNewStateObject_def createObject_def
      GetBalance_def getStateObject_def Let_def)

text \<open>
  C4 as amended: \<open>SubBalance\<close> subtracts in signed arithmetic, without rejecting or
  clamping. The balance read back after it is the balance read just before, minus
  the amount; so it is non-negative exactly when the amount does not exceed that
  balance.
\<close>

theorem SubBalance_is_signed_subtraction:
  "fst (GetBalance X (SubBalance X (snd (GetBalance X s addr)) addr amount) addr)
     = fst (GetBalance X s addr) - amount
   \<and> (0 \<le> fst (GetBalance X (SubBalance X (snd (GetBalance X s addr)) addr amount) addr)
        \<longleftrightarrow> amount \<le> fst (GetBalance X s addr))"
proof -
  have eq: "fst (GetBalance X (SubBalance X (snd (GetBalance X s addr)) addr amount) addr)
     = fst (GetBalance X s addr) - amount"
  proof (cases "getStateObject X s addr")
    case (Pair ro s1)
    show ?thesis
    proof (cases ro)
      case None
      with Pair have g: "getStateObject X s addr = (None, s1)" by simp
      from getStateObject_None [OF g]
      have s1: "s1 = s" and d: "case objects s addr of None \<Rightarrow> True | Some obj \<Rightarrow> deleted obj"
        by simp_all
      show ?thesis using g s1 d
        by (auto simp: GetBalance_def SubBalance_def GetOrNewStateObject_def createObject_def
            getStateObject_def Let_def split: option.splits)
    next
      case (Some obj)
      with Pair have g: "getStateObject X s addr = (Some obj, s1)" by simp
      from getStateObject_Some [OF g] have l: "objects s1 addr = Some obj" "\<not> deleted obj"
        by simp_all
      show ?thesis using g l
        by (simp add: GetBalance_def SubBalance_def GetOrNewStateObject_def
            getStateObject_def Let_def)
    qed
  qed
  show ?thesis unfolding eq by auto
qed

subsection \<open>Finalise\<close>

lemma Finalise_dirty_empty: "dirtyAddrs (Finalise order de s) = {}"
  by (simp add: Finalise_def)

text \<open>
  C7 (Finalise idempotence): after a call of \<open>Finalise\<close>, a second call, with no
  write in between, changes nothing: the store it returns is the store it was
  given, hence with the same dirty and deleted sets and the same objects, fields,
  storage layers and flags. The second call ranges over the dirty set the first
  one left, in any order \<open>order2\<close> that enumerates it.
\<close>

theorem Finalise_idempotent:
  assumes "distinct order2" and "set order2 = dirtyAddrs (Finalise order1 de s)"
  shows "Finalise order2 de (Finalise order1 de s) = Finalise order1 de s"
proof -
  from assms(2) have "order2 = []" by (simp add: Finalise_dirty_empty)
  then show ?thesis by (simp add: Finalise_def)
qed

theorem Finalise_idempotent_witness:
  "distinct ([] :: address list)
   \<and> set [] = dirtyAddrs (Finalise [1, 2] True (twoAccounts stubExternals))
   \<and> Finalise [] True (Finalise [1, 2] True (twoAccounts stubExternals))
       = Finalise [1, 2] True (twoAccounts stubExternals)"
  using Finalise_idempotent [of "[]" "[1, 2]" True "twoAccounts stubExternals"]
  by (simp add: Finalise_dirty_empty)

subsection \<open>Storage reads\<close>

lemma layeredLookup_None:
  "layeredLookup obj key = None \<longleftrightarrow>
     dirtyStorage obj key = None \<and> pendingStorage obj key = None \<and> originStorage obj key = None"
  by (auto simp: layeredLookup_def map_add_def split: option.splits)

lemma layeredLookup_Some:
  "layeredLookup obj key = Some v \<longleftrightarrow>
     dirtyStorage obj key = Some v
     \<or> dirtyStorage obj key = None \<and> pendingStorage obj key = Some v
     \<or> dirtyStorage obj key = None \<and> pendingStorage obj key = None
         \<and> originStorage obj key = Some v"
  by (auto simp: layeredLookup_def map_add_def split: option.splits)

lemma GetState_value:
  "fst (GetState X s addr key) =
     (case getStateObject X s addr of
        (None, s1) \<Rightarrow> 0
      | (Some obj, s1) \<Rightarrow>
          (case layeredLookup obj key of
             Some v \<Rightarrow> v
           | None \<Rightarrow> (case persistentLookup X s1 obj key of Some v \<Rightarrow> v | None \<Rightarrow> 0)))"
  by (auto simp: GetState_def layeredLookup_def map_add_def persistentLookup_def
      split: option.splits prod.splits)

lemma GetState_layers:
  assumes "getStateObject X s addr = (Some obj, s1)" and "layeredLookup obj key = Some v"
  shows "GetState X s addr key = (v, s1)"
  using assms
  by (auto simp: GetState_def layeredLookup_def map_add_def split: option.splits)

lemma GetState_persistent:
  assumes "getStateObject X s addr = (Some obj, s1)"
    and "layeredLookup obj key = None"
    and "persistentLookup X s1 obj key = Some v"
  shows "GetState X s addr key =
           (v, s1\<lparr>objects := (objects s1)(addr \<mapsto>
                     obj\<lparr>originStorage := (originStorage obj)(key \<mapsto> v)\<rparr>)\<rparr>)"
  using assms
  by (auto simp: GetState_def layeredLookup_None persistentLookup_def split: option.splits)

lemma GetState_repeat:
  assumes g: "getStateObject X s addr = (Some obj, s1)"
    and l: "layeredLookup obj key = None"
    and p: "persistentLookup X s1 obj key = Some v"
    and s2: "s2 = snd (GetState X s addr key)"
  shows "GetState X (s2\<lparr>db := dbo\<rparr>) addr key = (v, s2\<lparr>db := dbo\<rparr>)"
proof -
  let ?obj2 = "obj\<lparr>originStorage := (originStorage obj)(key \<mapsto> v)\<rparr>"
  have s2': "s2 = s1\<lparr>objects := (objects s1)(addr \<mapsto> ?obj2)\<rparr>"
    using GetState_persistent [OF g l p] s2 by simp
  have live: "\<not> deleted obj" using getStateObject_Some [OF g] by simp
  have "getStateObject X (s2\<lparr>db := dbo\<rparr>) addr = (Some ?obj2, s2\<lparr>db := dbo\<rparr>)"
    by (rule getStateObject_live) (simp_all add: s2' live)
  moreover have "layeredLookup ?obj2 key = Some v"
    using l by (simp add: layeredLookup_Some layeredLookup_None)
  ultimately show ?thesis by (rule GetState_layers)
qed

text \<open>
  C8 (storage read resolution order): for the object the store resolves for the
  address, \<open>GetState\<close> returns the value of the working layer if the key is there,
  else that of the pending layer, else that of the origin layer, else the value a
  lookup in the persistent layer finds, and zero if there is none (or no object).
  A value served from a layer leaves the store as the object lookup left it. A
  value found in the persistent layer is stored in the object's origin layer, and
  a repeated read returns it whatever the persistent layer then holds, without
  changing the store.
\<close>

theorem GetState_resolution_order:
  "fst (GetState X s addr key) =
     (case getStateObject X s addr of
        (None, s1) \<Rightarrow> 0
      | (Some obj, s1) \<Rightarrow>
          (case layeredLookup obj key of
             Some v \<Rightarrow> v
           | None \<Rightarrow> (case persistentLookup X s1 obj key of Some v \<Rightarrow> v | None \<Rightarrow> 0)))
   \<and> (\<forall>obj s1 v. getStateObject X s addr = (Some obj, s1) \<and> layeredLookup obj key = Some v
          \<longrightarrow> GetState X s addr key = (v, s1))
   \<and> (\<forall>obj s1 v. getStateObject X s addr = (Some obj, s1) \<and> layeredLookup obj key = None
            \<and> persistentLookup X s1 obj key = Some v
          \<longrightarrow> (\<exists>s2 obj2. GetState X s addr key = (v, s2)
                 \<and> objects s2 addr = Some obj2 \<and> originStorage obj2 key = Some v
                 \<and> (\<forall>dbo. GetState X (s2\<lparr>db := dbo\<rparr>) addr key = (v, s2\<lparr>db := dbo\<rparr>))))"
proof (intro conjI allI impI)
  show "fst (GetState X s addr key) =
     (case getStateObject X s addr of
        (None, s1) \<Rightarrow> 0
      | (Some obj, s1) \<Rightarrow>
          (case layeredLookup obj key of
             Some v \<Rightarrow> v
           | None \<Rightarrow> (case persistentLookup X s1 obj key of Some v \<Rightarrow> v | None \<Rightarrow> 0)))"
    by (rule GetState_value)
next
  fix obj s1 v
  assume "getStateObject X s addr = (Some obj, s1) \<and> layeredLookup obj key = Some v"
  then show "GetState X s addr key = (v, s1)" using GetState_layers by blast
next
  fix obj s1 v
  assume a: "getStateObject X s addr = (Some obj, s1) \<and> layeredLookup obj key = None
            \<and> persistentLookup X s1 obj key = Some v"
  let ?obj2 = "obj\<lparr>originStorage := (originStorage obj)(key \<mapsto> v)\<rparr>"
  let ?s2 = "s1\<lparr>objects := (objects s1)(addr \<mapsto> ?obj2)\<rparr>"
  from a have e: "GetState X s addr key = (v, ?s2)" using GetState_persistent by blast
  have r: "\<forall>dbo. GetState X (?s2\<lparr>db := dbo\<rparr>) addr key = (v, ?s2\<lparr>db := dbo\<rparr>)"
  proof
    fix dbo
    have "?s2 = snd (GetState X s addr key)" using e by simp
    with a show "GetState X (?s2\<lparr>db := dbo\<rparr>) addr key = (v, ?s2\<lparr>db := dbo\<rparr>)"
      using GetState_repeat by blast
  qed
  show "\<exists>s2 obj2. GetState X s addr key = (v, s2)
                 \<and> objects s2 addr = Some obj2 \<and> originStorage obj2 key = Some v
                 \<and> (\<forall>dbo. GetState X (s2\<lparr>db := dbo\<rparr>) addr key = (v, s2\<lparr>db := dbo\<rparr>))"
    using e r by (intro exI [of _ ?s2] exI [of _ ?obj2]) simp
qed

theorem GetState_resolution_order_witness:
  "(\<exists>obj s1. getStateObject stubExternals persistedStore 9 = (Some obj, s1)
       \<and> layeredLookup obj 4 = None
       \<and> persistentLookup stubExternals s1 obj 4 = Some 42)
   \<and> fst (GetState stubExternals persistedStore 9 4) = 42
   \<and> fst (GetState stubExternals
             ((snd (GetState stubExternals persistedStore 9 4))\<lparr>db := None\<rparr>) 9 4) = 42"
proof -
  have ex: "\<exists>obj s1. getStateObject stubExternals persistedStore 9 = (Some obj, s1)
       \<and> layeredLookup obj 4 = None
       \<and> persistentLookup stubExternals s1 obj 4 = Some 42"
    by (simp add: getStateObject_def loadStateObject_def persistedStore_def NewWithDB_def
        persistedDB_def stubExternals_def ReadAccountData_def ReadStorageData_def
        accountDataKey_def storageKey_def layeredLookup_def persistentLookup_def
        BytesToHash_def Let_def)
  then obtain obj s1 where g: "getStateObject stubExternals persistedStore 9 = (Some obj, s1)"
    and l: "layeredLookup obj 4 = None"
    and p: "persistentLookup stubExternals s1 obj 4 = Some 42"
    by blast
  from GetState_resolution_order [of stubExternals persistedStore 9 4] g l p
  obtain s2 where s2: "GetState stubExternals persistedStore 9 4 = (42, s2)"
    and r: "\<forall>dbo. GetState stubExternals (s2\<lparr>db := dbo\<rparr>) 9 4 = (42, s2\<lparr>db := dbo\<rparr>)"
    by blast
  from r have "GetState stubExternals (s2\<lparr>db := None\<rparr>) 9 4 = (42, s2\<lparr>db := None\<rparr>)" ..
  with s2 ex show ?thesis by simp
qed

subsection \<open>Writes after a deletion\<close>

text \<open>
  C10 (deleted-account resurrection): when the object the store holds for an
  address is marked deleted, \<open>GetOrNewStateObject\<close> returns a zero-default
  object and puts it in the deleted one's place; so each write (\<open>SetBalance\<close>,
  \<open>AddBalance\<close>, \<open>SubBalance\<close>, \<open>SetNonce\<close>, \<open>SetCode\<close>, \<open>SetState\<close>) leaves, at the
  address, the zero-default object with the written field changed and the dirty
  flag set, nothing of the deleted object remaining.
\<close>

theorem deleted_account_resurrection:
  assumes "objects s addr = Some old" and "deleted old"
  shows "(case GetOrNewStateObject X s addr of
            (obj, s') \<Rightarrow> zeroDefault X addr obj \<and> s' = s\<lparr>objects := (objects s)(addr \<mapsto> obj)\<rparr>)
         \<and> (\<exists>obj. zeroDefault X addr obj \<and>
                objects (SetBalance X s addr amount) addr
                  = Some (obj\<lparr>data := (data obj)\<lparr>Balance := amount\<rparr>, dirty := True\<rparr>) \<and>
                objects (AddBalance X s addr amount) addr
                  = Some (obj\<lparr>data := (data obj)\<lparr>Balance := amount\<rparr>, dirty := True\<rparr>) \<and>
                objects (SubBalance X s addr amount) addr
                  = Some (obj\<lparr>data := (data obj)\<lparr>Balance := - amount\<rparr>, dirty := True\<rparr>) \<and>
                objects (SetNonce X s addr nonce) addr
                  = Some (obj\<lparr>data := (data obj)\<lparr>Nonce := nonce\<rparr>, dirty := True\<rparr>) \<and>
                objects (SetCode X s addr c) addr
                  = Some (obj\<lparr>code := c, codeHash := Keccak256 X c,
                              data := (data obj)\<lparr>CodeHash := Keccak256 X c\<rparr>, dirty := True\<rparr>) \<and>
                objects (SetState X s addr key val) addr
                  = Some (obj\<lparr>dirtyStorage := [key \<mapsto> val], dirty := True\<rparr>))"
proof -
  let ?obj = "fst (createObject X s addr)"
  have g: "GetOrNewStateObject X s addr = (?obj, s\<lparr>objects := (objects s)(addr \<mapsto> ?obj)\<rparr>)"
    using GetOrNew_deleted [OF assms] createObject_store [of X s addr]
    by (metis prod.collapse)
  have z: "zeroDefault X addr ?obj" by (rule createObject_zero)
  have first: "case GetOrNewStateObject X s addr of
            (obj, s') \<Rightarrow> zeroDefault X addr obj \<and> s' = s\<lparr>objects := (objects s)(addr \<mapsto> obj)\<rparr>"
    using g z by simp
  have b0: "Balance (data ?obj) = 0" and d0: "dirtyStorage ?obj = Map.empty"
    using z by (simp_all add: zeroDefault_def)
  have second: "zeroDefault X addr ?obj \<and>
                objects (SetBalance X s addr amount) addr
                  = Some (?obj\<lparr>data := (data ?obj)\<lparr>Balance := amount\<rparr>, dirty := True\<rparr>) \<and>
                objects (AddBalance X s addr amount) addr
                  = Some (?obj\<lparr>data := (data ?obj)\<lparr>Balance := amount\<rparr>, dirty := True\<rparr>) \<and>
                objects (SubBalance X s addr amount) addr
                  = Some (?obj\<lparr>data := (data ?obj)\<lparr>Balance := - amount\<rparr>, dirty := True\<rparr>) \<and>
                objects (SetNonce X s addr nonce) addr
                  = Some (?obj\<lparr>data := (data ?obj)\<lparr>Nonce := nonce\<rparr>, dirty := True\<rparr>) \<and>
                objects (SetCode X s addr c) addr
                  = Some (?obj\<lparr>code := c, codeHash := Keccak256 X c,
                              data := (data ?obj)\<lparr>CodeHash := Keccak256 X c\<rparr>, dirty := True\<rparr>) \<and>
                objects (SetState X s addr key val) addr
                  = Some (?obj\<lparr>dirtyStorage := [key \<mapsto> val], dirty := True\<rparr>)"
    using z b0 d0
    by (simp add: g SetBalance_def AddBalance_def SubBalance_def SetNonce_def SetCode_def
        SetState_def)
  from first second show ?thesis by blast
qed

theorem deleted_account_resurrection_witness:
  "(\<exists>old. objects (suicidedAccount stubExternals) 1 = Some old \<and> deleted old \<and> suicided old)
   \<and> zeroDefault stubExternals 1 (fst (GetOrNewStateObject stubExternals
                                        (suicidedAccount stubExternals) 1))
   \<and> (\<exists>obj. zeroDefault stubExternals 1 obj
         \<and> objects (AddBalance stubExternals (suicidedAccount stubExternals) 1 3) 1
             = Some (obj\<lparr>data := (data obj)\<lparr>Balance := 3\<rparr>, dirty := True\<rparr>))"
proof -
  have ex: "\<exists>old. objects (suicidedAccount stubExternals) 1 = Some old \<and> deleted old
      \<and> suicided old"
    by (simp add: suicidedAccount_def Finalise_def Suicide_def SetBalance_def
        NewMemoryStateDB_def GetOrNewStateObject_def createObject_def getStateObject_def
        Let_def)
  then obtain old where o: "objects (suicidedAccount stubExternals) 1 = Some old"
    and d: "deleted old" by blast
  note r = deleted_account_resurrection [OF o d, where X = stubExternals and amount = 3
      and nonce = 0 and c = "[]" and key = 0 and val = 0]
  from r have "zeroDefault stubExternals 1 (fst (GetOrNewStateObject stubExternals
                                        (suicidedAccount stubExternals) 1))"
    by (cases "GetOrNewStateObject stubExternals (suicidedAccount stubExternals) 1") simp
  moreover from r have "\<exists>obj. zeroDefault stubExternals 1 obj
         \<and> objects (AddBalance stubExternals (suicidedAccount stubExternals) 1 3) 1
             = Some (obj\<lparr>data := (data obj)\<lparr>Balance := 3\<rparr>, dirty := True\<rparr>)"
    by blast
  ultimately show ?thesis using ex by blast
qed

section \<open>Properties of the block synchronizer\<close>

subsection \<open>Peer selection\<close>

lemma bestLoop_Cons:
  "bestLoop (p # ps) best bestTD =
     (if takesOver p bestTD then bestLoop ps (Some p) (td p) else bestLoop ps best bestTD)"
  by (simp add: takesOver_def split: option.splits)

lemma bestLoop_mem:
  "bestLoop ps best bestTD = Some r \<Longrightarrow> r \<in> set ps \<or> best = Some r"
proof (induction ps arbitrary: best bestTD)
  case Nil
  then show ?case by simp
next
  case (Cons p ps)
  show ?case
  proof (cases "takesOver p bestTD")
    case True
    with Cons.prems have "bestLoop ps (Some p) (td p) = Some r"
      by (simp only: bestLoop_Cons if_True)
    from Cons.IH [OF this] show ?thesis by auto
  next
    case False
    with Cons.prems have "bestLoop ps best bestTD = Some r"
      by (simp only: bestLoop_Cons if_False)
    from Cons.IH [OF this] show ?thesis by auto
  qed
qed

lemma bestLoop_td:
  assumes "bestLoop ps best bestTD = Some r"
    and "\<And>b. best = Some b \<Longrightarrow> td b = bestTD \<and> bestTD \<noteq> None"
  shows "\<exists>t. td r = Some t \<and> (\<forall>b. bestTD = Some b \<longrightarrow> b \<le> t)
              \<and> (\<forall>p\<in>set ps. \<forall>u. td p = Some u \<longrightarrow> u \<le> t)"
  using assms
proof (induction ps arbitrary: best bestTD)
  case Nil
  then show ?case by auto
next
  case (Cons p ps)
  show ?case
  proof (cases "takesOver p bestTD")
    case True
    then obtain t where t: "td p = Some t" and gt: "\<forall>b. bestTD = Some b \<longrightarrow> b < t"
      by (auto simp: takesOver_def split: option.splits)
    from True Cons.prems(1) have "bestLoop ps (Some p) (td p) = Some r"
      by (simp only: bestLoop_Cons if_True)
    moreover have "\<And>b. Some p = Some b \<Longrightarrow> td b = td p \<and> td p \<noteq> None" using t by simp
    ultimately have "\<exists>t'. td r = Some t' \<and> (\<forall>b. td p = Some b \<longrightarrow> b \<le> t')
              \<and> (\<forall>q\<in>set ps. \<forall>u. td q = Some u \<longrightarrow> u \<le> t')"
      by (rule Cons.IH)
    then obtain t' where t': "td r = Some t'" "t \<le> t'"
        "\<forall>q\<in>set ps. \<forall>u. td q = Some u \<longrightarrow> u \<le> t'"
      using t by auto
    have "\<forall>b. bestTD = Some b \<longrightarrow> b \<le> t'" using gt t'(2) by fastforce
    moreover have "\<forall>q\<in>set (p # ps). \<forall>u. td q = Some u \<longrightarrow> u \<le> t'"
      using t t'(2,3) by simp
    ultimately show ?thesis using t'(1) by blast
  next
    case False
    from False Cons.prems(1) have "bestLoop ps best bestTD = Some r"
      by (simp only: bestLoop_Cons if_False)
    from this Cons.prems(2)
    have "\<exists>t. td r = Some t \<and> (\<forall>b. bestTD = Some b \<longrightarrow> b \<le> t)
              \<and> (\<forall>q\<in>set ps. \<forall>u. td q = Some u \<longrightarrow> u \<le> t)"
      by (rule Cons.IH)
    then obtain t' where t': "td r = Some t'" "\<forall>b. bestTD = Some b \<longrightarrow> b \<le> t'"
        "\<forall>q\<in>set ps. \<forall>u. td q = Some u \<longrightarrow> u \<le> t'"
      by auto
    have "\<forall>u. td p = Some u \<longrightarrow> u \<le> t'"
    proof (intro allI impI)
      fix u assume u: "td p = Some u"
      with False obtain b where "bestTD = Some b" "\<not> b < u"
        by (auto simp: takesOver_def split: option.splits)
      with t'(2) show "u \<le> t'" by fastforce
    qed
    with t'(3) have "\<forall>q\<in>set (p # ps). \<forall>u. td q = Some u \<longrightarrow> u \<le> t'" by simp
    with t'(1,2) show ?thesis by blast
  qed
qed

lemma bestLoop_exists:
  assumes "\<exists>p\<in>set ps. td p \<noteq> None"
  shows "bestLoop ps None None \<noteq> None"
proof -
  have gen: "\<And>best bestTD. (bestTD \<noteq> None \<longrightarrow> best \<noteq> None) \<Longrightarrow>
      (\<exists>p\<in>set ps. td p \<noteq> None) \<or> best \<noteq> None \<Longrightarrow> bestLoop ps best bestTD \<noteq> None"
  proof (induction ps)
    case Nil
    then show ?case by simp
  next
    case (Cons p ps)
    show ?case
    proof (cases "takesOver p bestTD")
      case True
      have "bestLoop ps (Some p) (td p) \<noteq> None" by (rule Cons.IH) simp_all
      with True show ?thesis by (simp add: bestLoop_Cons del: bestLoop.simps)
    next
      case False
      have "(\<exists>q\<in>set ps. td q \<noteq> None) \<or> best \<noteq> None"
      proof (cases "td p")
        case None
        with Cons.prems(2) show ?thesis by auto
      next
        case (Some t)
        with False have "bestTD \<noteq> None" by (auto simp: takesOver_def split: option.splits)
        with Cons.prems(1) show ?thesis by simp
      qed
      with Cons.prems(1) have "bestLoop ps best bestTD \<noteq> None" by (rule Cons.IH)
      with False show ?thesis by (simp add: bestLoop_Cons del: bestLoop.simps)
    qed
  qed
  show ?thesis by (rule gen) (use assms in simp_all)
qed

text \<open>
  C9 (peer selection): in an iteration of the run loop that is not cancelled,
  with \<open>peers\<close> the connected peers, \<open>syncWithPeer\<close> is called only for a peer of
  the list whose total difficulty is the highest reported and strictly greater
  than the local one (nil counting as 0), and with that peer's head number as the
  target; it is called whenever some peer reports a total difficulty above the
  local one; and when every reported total difficulty is at most the local one,
  the iteration only sleeps.
\<close>

theorem peer_selection:
  assumes h: "handler s = Some peers"
  shows "(\<forall>p n. run_iteration False backendTD s = CallSyncWithPeer p n \<longrightarrow>
            p \<in> set peers \<and> n = number p
            \<and> (\<exists>t. td p = Some t
                   \<and> (case backendTD of None \<Rightarrow> 0 | Some x \<Rightarrow> x) < t
                   \<and> (\<forall>q\<in>set peers. \<forall>u. td q = Some u \<longrightarrow> u \<le> t)))
       \<and> ((\<exists>q\<in>set peers. \<exists>u. td q = Some u \<and> (case backendTD of None \<Rightarrow> 0 | Some x \<Rightarrow> x) < u)
            \<longrightarrow> (\<exists>p. run_iteration False backendTD s = CallSyncWithPeer p (number p)))
       \<and> ((\<forall>q\<in>set peers. \<forall>u. td q = Some u \<longrightarrow> u \<le> (case backendTD of None \<Rightarrow> 0 | Some x \<Rightarrow> x))
            \<longrightarrow> run_iteration False backendTD s \<in> {SleepNoPeers, SleepNotAhead})"
proof -
  let ?ourTD = "case backendTD of None \<Rightarrow> 0 | Some x \<Rightarrow> x"
  have fb: "findBestPeer s = (if length peers = 0 then None else bestLoop peers None None)"
    using h by (simp add: findBestPeer_def)
  have sel: "p \<in> set peers
      \<and> (\<exists>t. td p = Some t \<and> (\<forall>q\<in>set peers. \<forall>u. td q = Some u \<longrightarrow> u \<le> t))"
    if "findBestPeer s = Some p" for p
  proof -
    from that fb have b: "bestLoop peers None None = Some p" by (simp split: if_splits)
    from bestLoop_mem [OF b] have "p \<in> set peers" by simp
    moreover from bestLoop_td [OF b] have
      "\<exists>t. td p = Some t \<and> (\<forall>q\<in>set peers. \<forall>u. td q = Some u \<longrightarrow> u \<le> t)" by simp
    ultimately show ?thesis by simp
  qed
  have run: "run_iteration False backendTD s =
      (case findBestPeer s of None \<Rightarrow> SleepNoPeers
       | Some peer \<Rightarrow> (case td peer of None \<Rightarrow> SleepNotAhead
           | Some peerTD \<Rightarrow> if peerTD \<le> ?ourTD then SleepNotAhead
                            else CallSyncWithPeer peer (number peer)))"
    by (simp add: run_iteration_def Let_def split: option.splits)
  have one: "\<forall>p n. run_iteration False backendTD s = CallSyncWithPeer p n \<longrightarrow>
            p \<in> set peers \<and> n = number p
            \<and> (\<exists>t. td p = Some t \<and> ?ourTD < t
                   \<and> (\<forall>q\<in>set peers. \<forall>u. td q = Some u \<longrightarrow> u \<le> t))"
  proof (intro allI impI)
    fix p n
    assume a: "run_iteration False backendTD s = CallSyncWithPeer p n"
    then obtain peer where f: "findBestPeer s = Some peer"
      by (cases "findBestPeer s") (simp_all add: run)
    from sel [OF f] obtain t where t: "peer \<in> set peers" "td peer = Some t"
      "\<forall>q\<in>set peers. \<forall>u. td q = Some u \<longrightarrow> u \<le> t" by blast
    from a f t(2) have "\<not> t \<le> ?ourTD" "p = peer" "n = number peer"
      by (auto simp: run split: if_splits)
    with t show "p \<in> set peers \<and> n = number p
            \<and> (\<exists>t. td p = Some t \<and> ?ourTD < t
                   \<and> (\<forall>q\<in>set peers. \<forall>u. td q = Some u \<longrightarrow> u \<le> t))"
      by auto
  qed
  have two: "(\<exists>q\<in>set peers. \<exists>u. td q = Some u \<and> ?ourTD < u)
            \<longrightarrow> (\<exists>p. run_iteration False backendTD s = CallSyncWithPeer p (number p))"
  proof
    assume "\<exists>q\<in>set peers. \<exists>u. td q = Some u \<and> ?ourTD < u"
    then obtain q u where q: "q \<in> set peers" "td q = Some u" "?ourTD < u" by blast
    then have "\<exists>p\<in>set peers. td p \<noteq> None" by auto
    from bestLoop_exists [OF this] q(1) fb obtain peer where f: "findBestPeer s = Some peer"
      by (cases peers) auto
    from sel [OF f] obtain t where t: "td peer = Some t"
      "\<forall>q\<in>set peers. \<forall>u. td q = Some u \<longrightarrow> u \<le> t" by blast
    with q have "u \<le> t" by blast
    with q(3) have "\<not> t \<le> ?ourTD" by simp
    with f t(1) have "run_iteration False backendTD s = CallSyncWithPeer peer (number peer)"
      by (simp add: run)
    then show "\<exists>p. run_iteration False backendTD s = CallSyncWithPeer p (number p)" ..
  qed
  have three: "(\<forall>q\<in>set peers. \<forall>u. td q = Some u \<longrightarrow> u \<le> ?ourTD)
            \<longrightarrow> run_iteration False backendTD s \<in> {SleepNoPeers, SleepNotAhead}"
  proof
    assume a: "\<forall>q\<in>set peers. \<forall>u. td q = Some u \<longrightarrow> u \<le> ?ourTD"
    show "run_iteration False backendTD s \<in> {SleepNoPeers, SleepNotAhead}"
    proof (cases "findBestPeer s")
      case None
      then show ?thesis by (simp add: run)
    next
      case (Some peer)
      from sel [OF Some] obtain t where "peer \<in> set peers" "td peer = Some t" by blast
      with a Some show ?thesis by (simp add: run)
    qed
  qed
  from one two three show ?thesis by blast
qed

theorem peer_selection_witness:
  "handler (idleSynchronizer [peerA, peerB, peerC]) = Some [peerA, peerB, peerC]
   \<and> run_iteration False (Some 10) (idleSynchronizer [peerA, peerB, peerC])
       = CallSyncWithPeer peerB 90
   \<and> td peerB = Some 12
   \<and> run_iteration False (Some 12) (idleSynchronizer [peerA, peerB, peerC]) = SleepNotAhead"
  using peer_selection [of "idleSynchronizer [peerA, peerB, peerC]" "[peerA, peerB, peerC]"
      "Some 10"]
  by (simp add: idleSynchronizer_def peerA_def peerB_def peerC_def run_iteration_def
      findBestPeer_def)

subsection \<open>A failed insertion\<close>

lemma DeliverBlock_currentBlock: "currentBlock (foldl DeliverBlock s bs) = currentBlock s"
  by (induction bs arbitrary: s) (simp_all add: DeliverBlock_def)

lemma waitForBlock_currentBlock:
  assumes "waitForBlock e s num = (w, s2)"
  shows "currentBlock s2 = currentBlock s"
  using assms
  by (auto simp: waitForBlock_def Let_def DeliverBlock_currentBlock split: option.splits)

lemma insertStep_effect:
  assumes "insertStep e s num block = (outcome, s1, num1)"
  shows "currentBlock s1 = (if outcome = Inserted then num else currentBlock s)
       \<and> num1 = (if outcome = Inserted \<or> outcome = InsertFailed then num + 1 else num)
       \<and> (outcome = InsertFailed \<longrightarrow> insertFails e \<and> NumberU64 block = num)
       \<and> (outcome = Inserted \<longrightarrow> \<not> insertFails e \<and> NumberU64 block = num)
       \<and> outcome \<in> {NumberMismatch, InsertFailed, Inserted}"
  using assms by (auto simp: insertStep_def split: if_splits)

text \<open>The two ways in which an iteration reaches the number check with a block.\<close>

lemma syncIteration_cached:
  assumes "\<not> cancelClosed e"
    and "pendingBlocks (foldl DeliverBlock s (arrivals e)) num = Some block"
  shows "syncIteration e s num =
           insertStep e ((foldl DeliverBlock s (arrivals e))
               \<lparr>pendingBlocks := (pendingBlocks (foldl DeliverBlock s (arrivals e)))(num := None)\<rparr>)
             num block"
  using assms by (simp add: syncIteration_def Let_def)

lemma syncIteration_fetched:
  assumes "\<not> cancelClosed e"
    and "pendingBlocks (foldl DeliverBlock s (arrivals e)) num = None"
    and "\<not> sendFails e"
    and "waitForBlock e (foldl DeliverBlock s (arrivals e)) num = (Some block, s1)"
  shows "syncIteration e s num = insertStep e s1 num block"
  using assms by (simp add: syncIteration_def Let_def)

text \<open>
  What an iteration does to the progress counter and to the loop's number, for
  each of its outcomes: the counter changes in a successful insertion only, and
  the number advances after an insertion, failed or not, and in no other case.
\<close>

lemma syncIteration_effect:
  assumes "syncIteration e s num = (outcome, s1, num1)"
  shows "currentBlock s1 = (if outcome = Inserted then num else currentBlock s)
       \<and> num1 = (if outcome = Inserted \<or> outcome = InsertFailed then num + 1 else num)
       \<and> (outcome = InsertFailed \<longrightarrow> insertFails e \<and> \<not> cancelClosed e)
       \<and> (outcome = Inserted \<longrightarrow> \<not> insertFails e \<and> \<not> cancelClosed e)"
proof -
  let ?s = "foldl DeliverBlock s (arrivals e)"
  have cb: "currentBlock ?s = currentBlock s" by (rule DeliverBlock_currentBlock)
  show ?thesis
  proof (cases "cancelClosed e")
    case True
    with assms cb show ?thesis by (auto simp: syncIteration_def Let_def)
  next
    case nc: False
    show ?thesis
    proof (cases "pendingBlocks ?s num")
      case (Some block)
      from syncIteration_cached [OF nc Some] assms have
        "insertStep e (?s\<lparr>pendingBlocks := (pendingBlocks ?s)(num := None)\<rparr>) num block
           = (outcome, s1, num1)"
        by simp
      from insertStep_effect [OF this] cb nc show ?thesis by simp
    next
      case None
      show ?thesis
      proof (cases "sendFails e")
        case True
        with nc None assms cb show ?thesis by (auto simp: syncIteration_def Let_def)
      next
        case False
        obtain w s2 where w: "waitForBlock e ?s num = (w, s2)"
          by (cases "waitForBlock e ?s num")
        from waitForBlock_currentBlock [OF w] cb have cb2: "currentBlock s2 = currentBlock s"
          by simp
        show ?thesis
        proof (cases w)
          case None
          with nc \<open>pendingBlocks ?s num = None\<close> False w assms cb2 show ?thesis
            by (auto simp: syncIteration_def Let_def)
        next
          case (Some block)
          with w have "waitForBlock e ?s num = (Some block, s2)" by simp
          from syncIteration_fetched [OF nc \<open>pendingBlocks ?s num = None\<close> False this] assms
          have "insertStep e s2 num block = (outcome, s1, num1)" by simp
          from insertStep_effect [OF this] cb2 nc show ?thesis by simp
        qed
      qed
    qed
  qed
qed

text \<open>
  C6 (insertion-failure skip), counterexample: local head 106, target 107, block
  107 in the cache, and its insertion fails. The attempt ends without error and
  the progress counter \<open>currentBlock\<close> is 106: it has not advanced past 107.
\<close>

theorem failed_insertion_leaves_counter:
  "map_option (\<lambda>(err, s). (err, currentBlock s, currentPeer s))
       (syncWithPeer [failingInsert] 106 syncingAt107 peerB 107)
     = Some (None, 106, None)"
  by (simp add: syncWithPeer_def syncIteration_def insertStep_def failingInsert_def
      syncingAt107_def block107_def)

text \<open>
  C6 as amended. Take an iteration for the number \<open>num\<close> that is not cancelled and
  gets block \<open>num\<close>, from the cache or (the cache not holding it and the request
  being sent) from \<open>waitForBlock\<close>, and let \<open>InsertBlock\<close> fail. Then the
  iteration ends as a failed insertion, with the loop's number at \<open>num + 1\<close> and
  the store as the fetch left it: the loop neither returns nor retries \<open>num\<close>, the
  rest of the attempt being the loop from \<open>num + 1\<close>. The failed insertion leaves
  the progress counter \<open>currentBlock\<close> as it was. For every iteration, whatever
  its outcome, the counter changes only when the insertion succeeds, to the number
  inserted, and the loop's number advances only after an insertion (failed or
  not); so after the failure the counter passes \<open>num\<close> when block \<open>num + 1\<close> is
  inserted.
\<close>

theorem insertion_failure_skip:
  assumes nc: "\<not> cancelClosed e"
    and fails: "insertFails e"
    and got: "pendingBlocks (foldl DeliverBlock s (arrivals e)) num = Some block
                \<and> s1 = (foldl DeliverBlock s (arrivals e))
                     \<lparr>pendingBlocks :=
                        (pendingBlocks (foldl DeliverBlock s (arrivals e)))(num := None)\<rparr>
              \<or> pendingBlocks (foldl DeliverBlock s (arrivals e)) num = None
                \<and> \<not> sendFails e
                \<and> waitForBlock e (foldl DeliverBlock s (arrivals e)) num = (Some block, s1)"
    and nr: "NumberU64 block = num"
  shows "syncIteration e s num = (InsertFailed, s1, num + 1)
       \<and> currentBlock s1 = currentBlock s
       \<and> (num \<le> targetNum \<longrightarrow>
            syncLoop (e # es) s targetNum num = syncLoop es s1 targetNum (num + 1))
       \<and> (\<forall>e' s' n' outcome s2 num2.
             syncIteration e' s' n' = (outcome, s2, num2) \<longrightarrow>
               currentBlock s2 = (if outcome = Inserted then n' else currentBlock s')
               \<and> num2 = (if outcome = Inserted \<or> outcome = InsertFailed then n' + 1 else n')
               \<and> (outcome = InsertFailed \<longrightarrow> insertFails e')
               \<and> (outcome = Inserted \<longrightarrow> \<not> insertFails e'))
       \<and> (\<forall>e' s2 num2. syncIteration e' s1 (num + 1) = (Inserted, s2, num2)
             \<longrightarrow> currentBlock s2 = num + 1)"
proof -
  let ?s = "foldl DeliverBlock s (arrivals e)"
  have it: "syncIteration e s num = (InsertFailed, s1, num + 1)"
  proof -
    from got show ?thesis
    proof (rule disjE)
      assume a: "pendingBlocks ?s num = Some block
                \<and> s1 = ?s\<lparr>pendingBlocks := (pendingBlocks ?s)(num := None)\<rparr>"
      then have c: "pendingBlocks ?s num = Some block" ..
      from a have d: "s1 = ?s\<lparr>pendingBlocks := (pendingBlocks ?s)(num := None)\<rparr>" ..
      from syncIteration_cached [OF nc c] d fails nr show ?thesis
        by (simp add: insertStep_def)
    next
      assume a: "pendingBlocks ?s num = None \<and> \<not> sendFails e
                \<and> waitForBlock e ?s num = (Some block, s1)"
      then have c: "pendingBlocks ?s num = None" and d: "\<not> sendFails e"
        and w: "waitForBlock e ?s num = (Some block, s1)"
        by simp_all
      from syncIteration_fetched [OF nc c d w] fails nr show ?thesis
        by (simp add: insertStep_def)
    qed
  qed
  from syncIteration_effect [OF it] have cb: "currentBlock s1 = currentBlock s" by simp
  have lp: "num \<le> targetNum \<longrightarrow>
      syncLoop (e # es) s targetNum num = syncLoop es s1 targetNum (num + 1)"
    using it by simp
  have all: "\<forall>e' s' n' outcome s2 num2.
             syncIteration e' s' n' = (outcome, s2, num2) \<longrightarrow>
               currentBlock s2 = (if outcome = Inserted then n' else currentBlock s')
               \<and> num2 = (if outcome = Inserted \<or> outcome = InsertFailed then n' + 1 else n')
               \<and> (outcome = InsertFailed \<longrightarrow> insertFails e')
               \<and> (outcome = Inserted \<longrightarrow> \<not> insertFails e')"
  proof (intro allI impI)
    fix e' s' n' outcome s2 num2
    assume "syncIteration e' s' n' = (outcome, s2, num2)"
    from syncIteration_effect [OF this]
    show "currentBlock s2 = (if outcome = Inserted then n' else currentBlock s')
               \<and> num2 = (if outcome = Inserted \<or> outcome = InsertFailed then n' + 1 else n')
               \<and> (outcome = InsertFailed \<longrightarrow> insertFails e')
               \<and> (outcome = Inserted \<longrightarrow> \<not> insertFails e')"
      by simp
  qed
  have nx: "\<forall>e' s2 num2. syncIteration e' s1 (num + 1) = (Inserted, s2, num2)
             \<longrightarrow> currentBlock s2 = num + 1"
  proof (intro allI impI)
    fix e' s2 num2
    assume "syncIteration e' s1 (num + 1) = (Inserted, s2, num2)"
    from syncIteration_effect [OF this] show "currentBlock s2 = num + 1" by simp
  qed
  from it cb lp all nx show ?thesis by blast
qed

theorem insertion_failure_skip_witness:
  "\<not> cancelClosed failingInsert \<and> insertFails failingInsert
   \<and> pendingBlocks (foldl DeliverBlock syncingAt107 (arrivals failingInsert)) 107
       = Some block107
   \<and> NumberU64 block107 = 107
   \<and> syncIteration failingInsert syncingAt107 107
       = (InsertFailed, syncingAt107\<lparr>pendingBlocks := Map.empty\<rparr>, 108)
   \<and> currentBlock (syncingAt107\<lparr>pendingBlocks := Map.empty\<rparr>) = currentBlock syncingAt107
   \<and> syncLoop [failingInsert] syncingAt107 108 107
       = syncLoop [] (syncingAt107\<lparr>pendingBlocks := Map.empty\<rparr>) 108 108
   \<and> \<not> cancelClosed failingInsertAfterFetch \<and> insertFails failingInsertAfterFetch
   \<and> pendingBlocks (foldl DeliverBlock syncingEmptyCache (arrivals failingInsertAfterFetch)) 107
       = None
   \<and> \<not> sendFails failingInsertAfterFetch
   \<and> waitForBlock failingInsertAfterFetch
         (foldl DeliverBlock syncingEmptyCache (arrivals failingInsertAfterFetch)) 107
       = (Some block107, syncingEmptyCache)
   \<and> syncIteration failingInsertAfterFetch syncingEmptyCache 107
       = (InsertFailed, syncingEmptyCache, 108)
   \<and> syncLoop [failingInsertAfterFetch] syncingEmptyCache 108 107
       = syncLoop [] syncingEmptyCache 108 108"
proof -
  have c1: "\<not> cancelClosed failingInsert" and c2: "insertFails failingInsert"
    by (simp_all add: failingInsert_def)
  have c3: "pendingBlocks (foldl DeliverBlock syncingAt107 (arrivals failingInsert)) 107
       = Some block107"
    by (simp add: failingInsert_def syncingAt107_def)
  have c4: "syncingAt107\<lparr>pendingBlocks := Map.empty\<rparr>
      = (foldl DeliverBlock syncingAt107 (arrivals failingInsert))
          \<lparr>pendingBlocks :=
             (pendingBlocks (foldl DeliverBlock syncingAt107 (arrivals failingInsert)))
               (107 := None)\<rparr>"
    by (simp add: failingInsert_def syncingAt107_def)
  have c5: "NumberU64 block107 = 107" by (simp add: block107_def)
  have f1: "\<not> cancelClosed failingInsertAfterFetch"
    and f2: "insertFails failingInsertAfterFetch"
    and f4: "\<not> sendFails failingInsertAfterFetch"
    by (simp_all add: failingInsertAfterFetch_def)
  have f3: "pendingBlocks (foldl DeliverBlock syncingEmptyCache
                (arrivals failingInsertAfterFetch)) 107 = None"
    by (simp add: failingInsertAfterFetch_def syncingEmptyCache_def)
  have f5: "waitForBlock failingInsertAfterFetch
         (foldl DeliverBlock syncingEmptyCache (arrivals failingInsertAfterFetch)) 107
       = (Some block107, syncingEmptyCache)"
    by (simp add: waitForBlock_def DeliverBlock_def failingInsertAfterFetch_def
        syncingEmptyCache_def block107_def Let_def)
  note cached = insertion_failure_skip [OF c1 c2 disjI1 [OF conjI [OF c3 c4]] c5,
      of 108 "[]"]
  note fetched = insertion_failure_skip [OF f1 f2 disjI2 [OF conjI [OF f3 conjI [OF f4 f5]]] c5,
      of 108 "[]"]
  from cached have
    "syncIteration failingInsert syncingAt107 107
       = (InsertFailed, syncingAt107\<lparr>pendingBlocks := Map.empty\<rparr>, 108)"
    "currentBlock (syncingAt107\<lparr>pendingBlocks := Map.empty\<rparr>) = currentBlock syncingAt107"
    "syncLoop [failingInsert] syncingAt107 108 107
       = syncLoop [] (syncingAt107\<lparr>pendingBlocks := Map.empty\<rparr>) 108 108"
    by simp_all
  moreover from fetched have
    "syncIteration failingInsertAfterFetch syncingEmptyCache 107
       = (InsertFailed, syncingEmptyCache, 108)"
    "syncLoop [failingInsertAfterFetch] syncingEmptyCache 108 107
       = syncLoop [] syncingEmptyCache 108 108"
    by simp_all
  ultimately show ?thesis using c1 c2 c3 c5 f1 f2 f3 f4 f5 by blast
qed

end
